theory Spec2Isabelle
  imports Complex_Main "HOL-Library.Char_ord" "HOL-Library.List_Lexorder"
begin

section \<open>Data model of \<open>generate_shifts\<close>\<close>

text \<open>
  The function \<open>generate_shifts(employees, desired_shifts, required_shifts)\<close> of
  \<open>shift_generate.py\<close> builds a mixed-integer linear program over the 30 days and the two
  shift types, hands it to the solver and turns the solved values into two tables.

  Employees are strings, a slot is a pair \<open>(day, shift_type)\<close> of a Python int and a string.
  \<open>desired_shifts\<close> is a dict from employee to a collection of slots that is only ever
  queried with \<open>in\<close>, so it is a partial map into sets; \<open>required_shifts\<close> is a dict of
  dicts of ints. A failed dict lookup raises \<open>KeyError\<close>.
\<close>

type_synonym employee = string
type_synonym slot = "int \<times> string"
type_synonym desired = "employee \<rightharpoonup> slot set"
type_synonym required = "int \<rightharpoonup> (string \<rightharpoonup> int)"

datatype error = KeyError

text \<open>\<open>range(1, 31)\<close> and \<open>['Morning', 'Evening']\<close>, and the nested loop over both.\<close>

definition days :: "int list" where
  "days = [1..30]"

definition shift_types :: "string list" where
  "shift_types = [''Morning'', ''Evening'']"

definition slots :: "slot list" where
  "slots = [(day, shift_type). day \<leftarrow> days, shift_type \<leftarrow> shift_types]"

subsection \<open>Variables\<close>

text \<open>
  An \<open>LpVariable\<close> object is identified by the dictionary key under which the function
  stores it (the name string handed to the constructor is a label for the solver's file
  format and is left out). It carries the lower bound and the category it was declared
  with: \<open>lowBound=0, cat='Continuous'\<close> for a shortage, \<open>cat='Binary'\<close> for a shift.
\<close>

datatype var_key = ShortageKey int string | ShiftKey employee int string

datatype category = Continuous | Binary

record LpVariable =
  ident :: var_key
  lowBound :: "real option"
  cat :: category

definition shortage_variable :: "int \<Rightarrow> string \<Rightarrow> LpVariable" where
  "shortage_variable day shift_type =
     \<lparr>ident = ShortageKey day shift_type, lowBound = Some 0, cat = Continuous\<rparr>"

definition shift_variable :: "employee \<Rightarrow> int \<Rightarrow> string \<Rightarrow> LpVariable" where
  "shift_variable employee day shift_type =
     \<lparr>ident = ShiftKey employee day shift_type, lowBound = None, cat = Binary\<rparr>"

text \<open>
  A Python dict keeps one entry per key, at the position of the key's first insertion;
  assigning to a key again replaces the value in place.
\<close>

definition dict_keys :: "'a list \<Rightarrow> 'a list" where
  "dict_keys ks = rev (remdups (rev ks))"

text \<open>The dicts \<open>shortages\<close> and \<open>shifts\<close> after the loop of lines 24 to 28, as item lists.\<close>

definition shortages :: "(slot \<times> LpVariable) list" where
  "shortages =
     map (\<lambda>(day, shift_type). ((day, shift_type), shortage_variable day shift_type))
       (dict_keys slots)"

definition shifts :: "employee list \<Rightarrow> ((employee \<times> slot) \<times> LpVariable) list" where
  "shifts employees =
     map (\<lambda>(employee, day, shift_type).
            ((employee, day, shift_type), shift_variable employee day shift_type))
       (dict_keys [(employee, day, shift_type).
                     (day, shift_type) \<leftarrow> slots, employee \<leftarrow> employees])"

subsection \<open>Linear expressions, constraints, problems\<close>

text \<open>
  An affine expression is its list of terms (variable, coefficient); \<open>lpSum\<close> of a list of
  variables gives each the coefficient 1. Its value under an assignment of values to the
  variables is the sum of the terms.
\<close>

type_synonym LpAffineExpression = "(LpVariable \<times> real) list"

definition lpSum :: "LpVariable list \<Rightarrow> LpAffineExpression" where
  "lpSum vs = map (\<lambda>v. (v, 1)) vs"

definition aff_add :: "LpAffineExpression \<Rightarrow> LpAffineExpression \<Rightarrow> LpAffineExpression" where
  "aff_add a b = a @ b"

definition aff_sub :: "LpAffineExpression \<Rightarrow> LpAffineExpression \<Rightarrow> LpAffineExpression" where
  "aff_sub a b = a @ map (\<lambda>(v, c). (v, - c)) b"

definition aff_value :: "(LpVariable \<Rightarrow> real) \<Rightarrow> LpAffineExpression \<Rightarrow> real" where
  "aff_value varValue a = (\<Sum>(v, c)\<leftarrow>a. c * varValue v)"

datatype LpConstraintSense = LpConstraintGE | LpConstraintEQ

record LpConstraint =
  lhs :: LpAffineExpression
  csense :: LpConstraintSense
  rhs :: real

datatype LpSense = LpMinimize | LpMaximize

record LpProblem =
  sense :: LpSense
  variables :: "LpVariable list"
  objective :: LpAffineExpression
  constraints :: "LpConstraint list"

subsection \<open>Building the model\<close>

text \<open>A loop whose body may raise: the first error ends it.\<close>

fun traverse :: "('a \<Rightarrow> error + 'b) \<Rightarrow> 'a list \<Rightarrow> error + 'b list" where
  "traverse f [] = Inr []"
| "traverse f (x # xs) =
     (case f x of
        Inl e \<Rightarrow> Inl e
      | Inr y \<Rightarrow> (case traverse f xs of Inl e \<Rightarrow> Inl e | Inr ys \<Rightarrow> Inr (y # ys)))"

text \<open>
  Line 33: the comprehension over employee, day and shift type, whose filter looks
  \<open>desired_shifts[employee]\<close> up at every iteration.
\<close>

definition desired_variables :: "employee list \<Rightarrow> desired \<Rightarrow> error + LpVariable list" where
  "desired_variables employees desired_shifts =
     (case traverse
             (\<lambda>(employee, day, shift_type).
                case desired_shifts employee of
                  None \<Rightarrow> Inl KeyError
                | Some D \<Rightarrow>
                    Inr (if (day, shift_type) \<in> D
                         then [shift_variable employee day shift_type] else []))
             [(employee, day, shift_type).
                employee \<leftarrow> employees, (day, shift_type) \<leftarrow> slots]
      of Inl e \<Rightarrow> Inl e | Inr vss \<Rightarrow> Inr (concat vss))"

text \<open>Lines 32 and 33: the objective.\<close>

definition build_objective :: "employee list \<Rightarrow> desired \<Rightarrow> error + LpAffineExpression" where
  "build_objective employees desired_shifts =
     (case desired_variables employees desired_shifts of
        Inl e \<Rightarrow> Inl e
      | Inr vs \<Rightarrow>
          Inr (aff_sub
                 (lpSum [shortage_variable day shift_type. (day, shift_type) \<leftarrow> slots])
                 (lpSum vs)))"

text \<open>Lines 36 to 39: one coverage constraint per slot.\<close>

definition coverage_constraint :: "employee list \<Rightarrow> int \<Rightarrow> string \<Rightarrow> int \<Rightarrow> LpConstraint" where
  "coverage_constraint employees day shift_type r =
     \<lparr>lhs = aff_add (lpSum [shift_variable employee day shift_type. employee \<leftarrow> employees])
                     [(shortage_variable day shift_type, 1)],
      csense = LpConstraintGE,
      rhs = of_int r\<rparr>"

definition coverage_constraints :: "employee list \<Rightarrow> required \<Rightarrow> error + LpConstraint list" where
  "coverage_constraints employees required_shifts =
     traverse
       (\<lambda>(day, shift_type).
          case required_shifts day of
            None \<Rightarrow> Inl KeyError
          | Some m \<Rightarrow>
              (case m shift_type of
                 None \<Rightarrow> Inl KeyError
               | Some r \<Rightarrow> Inr (coverage_constraint employees day shift_type r)))
       slots"

text \<open>Lines 42 to 46: a shift outside the employee's desired set is fixed to 0.\<close>

definition lock_constraint :: "employee \<Rightarrow> int \<Rightarrow> string \<Rightarrow> LpConstraint" where
  "lock_constraint employee day shift_type =
     \<lparr>lhs = [(shift_variable employee day shift_type, 1)], csense = LpConstraintEQ, rhs = 0\<rparr>"

definition preference_constraints :: "employee list \<Rightarrow> desired \<Rightarrow> error + LpConstraint list" where
  "preference_constraints employees desired_shifts =
     (case traverse
             (\<lambda>(employee, day, shift_type).
                case desired_shifts employee of
                  None \<Rightarrow> Inl KeyError
                | Some D \<Rightarrow>
                    Inr (if (day, shift_type) \<notin> D
                         then [lock_constraint employee day shift_type] else []))
             [(employee, day, shift_type).
                employee \<leftarrow> employees, (day, shift_type) \<leftarrow> slots]
      of Inl e \<Rightarrow> Inl e | Inr css \<Rightarrow> Inr (concat css))"

text \<open>Lines 19 to 46: the problem handed to \<open>prob.solve()\<close>.\<close>

definition build_problem :: "employee list \<Rightarrow> desired \<Rightarrow> required \<Rightarrow> error + LpProblem" where
  "build_problem employees desired_shifts required_shifts =
     (case build_objective employees desired_shifts of
        Inl e \<Rightarrow> Inl e
      | Inr obj \<Rightarrow>
          (case coverage_constraints employees required_shifts of
             Inl e \<Rightarrow> Inl e
           | Inr cov \<Rightarrow>
               (case preference_constraints employees desired_shifts of
                  Inl e \<Rightarrow> Inl e
                | Inr pref \<Rightarrow>
                    Inr \<lparr>sense = LpMinimize,
                         variables = map snd shortages @ map snd (shifts employees),
                         objective = obj,
                         constraints = cov @ pref\<rparr>)))"

subsection \<open>The solving contract\<close>

text \<open>
  The solver is an external collaborator. What it returns is an assignment of a value
  to every variable; the contract it is used under is that the values respect the
  declared bound and category of every variable, satisfy every constraint, and minimise
  the objective among all such assignments.
\<close>

definition in_domain :: "LpVariable \<Rightarrow> real \<Rightarrow> bool" where
  "in_domain v x =
     ((case lowBound v of None \<Rightarrow> True | Some l \<Rightarrow> l \<le> x) \<and>
      (case cat v of Continuous \<Rightarrow> True | Binary \<Rightarrow> x = 0 \<or> x = 1))"

definition satisfies :: "(LpVariable \<Rightarrow> real) \<Rightarrow> LpConstraint \<Rightarrow> bool" where
  "satisfies varValue c =
     (case csense c of
        LpConstraintGE \<Rightarrow> rhs c \<le> aff_value varValue (lhs c)
      | LpConstraintEQ \<Rightarrow> aff_value varValue (lhs c) = rhs c)"

definition feasible :: "LpProblem \<Rightarrow> (LpVariable \<Rightarrow> real) \<Rightarrow> bool" where
  "feasible prob varValue =
     (list_all (\<lambda>v. in_domain v (varValue v)) (variables prob) \<and>
      list_all (satisfies varValue) (constraints prob))"

definition better :: "LpSense \<Rightarrow> real \<Rightarrow> real \<Rightarrow> bool" where
  "better s a b = (case s of LpMinimize \<Rightarrow> a \<le> b | LpMaximize \<Rightarrow> b \<le> a)"

definition optimal :: "LpProblem \<Rightarrow> (LpVariable \<Rightarrow> real) \<Rightarrow> bool" where
  "optimal prob varValue =
     (feasible prob varValue \<and>
      (\<forall>other. feasible prob other \<longrightarrow>
         better (sense prob) (aff_value varValue (objective prob))
                             (aff_value other (objective prob))))"

subsection \<open>Result tables\<close>

text \<open>Python's \<open>str\<close> of an int, and the slot label \<open>f"{day}-{shift_type}"\<close>.\<close>

fun digits :: "nat \<Rightarrow> string" where
  "digits n =
     (if n < 10 then [''0123456789'' ! n]
      else digits (n div 10) @ [''0123456789'' ! (n mod 10)])"

declare digits.simps [simp del]

definition str_int :: "int \<Rightarrow> string" where
  "str_int i = (if i < 0 then ''-'' @ digits (nat (- i)) else digits (nat i))"

definition slot_label :: "int \<Rightarrow> string \<Rightarrow> string" where
  "slot_label day shift_type = str_int day @ ''-'' @ shift_type"

text \<open>
  \<open>DataFrame.pivot_table(index, columns, values, fill_value=0)\<close> with the default
  aggregation: the row labels and the column labels are the distinct values of the two
  key columns, sorted; a cell is the mean of the values recorded for its (row, column)
  pair, and the fill value where nothing is recorded.
\<close>

record pivot =
  index :: "employee list"
  columns :: "string list"
  cells :: "real list list"

definition recorded :: "(employee \<times> string \<times> real) list \<Rightarrow> employee \<Rightarrow> string \<Rightarrow> real list" where
  "recorded recs e l = map (\<lambda>(e', l', x). x) (filter (\<lambda>(e', l', x). e' = e \<and> l' = l) recs)"

definition mean :: "real list \<Rightarrow> real" where
  "mean xs = sum_list xs / real (length xs)"

definition pivot_table :: "(employee \<times> string \<times> real) list \<Rightarrow> real \<Rightarrow> pivot" where
  "pivot_table recs fill_value =
     (let idx = sort (remdups (map (\<lambda>(e, l, x). e) recs));
          cols = sort (remdups (map (\<lambda>(e, l, x). l) recs))
      in \<lparr>index = idx,
          columns = cols,
          cells = map (\<lambda>e. map (\<lambda>l. if recorded recs e l = [] then fill_value
                                      else mean (recorded recs e l)) cols) idx\<rparr>)"

text \<open>Lines 52 and 61: the records of the non-zero values, in the order of the dicts.\<close>

definition shifts_data :: "(LpVariable \<Rightarrow> real) \<Rightarrow> employee list \<Rightarrow> (employee \<times> string \<times> real) list" where
  "shifts_data varValue employees =
     map (\<lambda>((employee, day, shift_type), v). (employee, slot_label day shift_type, varValue v))
       (filter (\<lambda>(k, v). varValue v \<noteq> 0) (shifts employees))"

definition shortages_data :: "(LpVariable \<Rightarrow> real) \<Rightarrow> (string \<times> real) list" where
  "shortages_data varValue =
     map (\<lambda>((day, shift_type), v). (slot_label day shift_type, varValue v))
       (filter (\<lambda>(k, v). varValue v \<noteq> 0) shortages)"

text \<open>
  The whole function. The solver is a parameter: \<open>solve prob\<close> is the value that
  \<open>prob.solve()\<close> leaves in every variable. The shortage table, a frame with the single
  column \<open>Shortage\<close> indexed by the label, is the list of its rows.
\<close>

definition generate_shifts ::
  "(LpProblem \<Rightarrow> LpVariable \<Rightarrow> real) \<Rightarrow> employee list \<Rightarrow> desired \<Rightarrow> required
     \<Rightarrow> error + (pivot \<times> (string \<times> real) list)" where
  "generate_shifts solve employees desired_shifts required_shifts =
     (case build_problem employees desired_shifts required_shifts of
        Inl e \<Rightarrow> Inl e
      | Inr prob \<Rightarrow>
          (let varValue = solve prob;
               pivot_table = pivot_table (shifts_data varValue employees) 0;
               shortages_df = shortages_data varValue
           in Inr (pivot_table, shortages_df)))"

section \<open>Notions used to state the properties\<close>

text \<open>
  The desired set of an employee (empty where the dict has no entry), the required
  headcount of a slot (0 where the dicts have no entry), the inputs on which no lookup
  fails, the number of employees in the list who desire a slot, and the values that the
  analysis below shows to be the only optimal ones.
\<close>

definition desired_set :: "desired \<Rightarrow> employee \<Rightarrow> slot set" where
  "desired_set desired_shifts e = (case desired_shifts e of None \<Rightarrow> {} | Some D \<Rightarrow> D)"

definition required_count :: "required \<Rightarrow> int \<Rightarrow> string \<Rightarrow> int" where
  "required_count required_shifts day shift_type =
     (case required_shifts day of
        None \<Rightarrow> 0
      | Some m \<Rightarrow> (case m shift_type of None \<Rightarrow> 0 | Some r \<Rightarrow> r))"

definition desired_complete :: "employee list \<Rightarrow> desired \<Rightarrow> bool" where
  "desired_complete employees desired_shifts =
     list_all (\<lambda>e. desired_shifts e \<noteq> None) employees"

definition required_complete :: "required \<Rightarrow> bool" where
  "required_complete required_shifts =
     list_all (\<lambda>(day, shift_type).
                 case required_shifts day of
                   None \<Rightarrow> False
                 | Some m \<Rightarrow> m shift_type \<noteq> None) slots"

definition desire_count :: "employee list \<Rightarrow> desired \<Rightarrow> int \<Rightarrow> string \<Rightarrow> nat" where
  "desire_count employees desired_shifts day shift_type =
     length (filter (\<lambda>e. (day, shift_type) \<in> desired_set desired_shifts e) employees)"

definition best_values :: "employee list \<Rightarrow> desired \<Rightarrow> required \<Rightarrow> LpVariable \<Rightarrow> real" where
  "best_values employees desired_shifts required_shifts v =
     (case ident v of
        ShortageKey d s \<Rightarrow>
          max 0 (of_int (required_count required_shifts d s)
                 - real (desire_count employees desired_shifts d s))
      | ShiftKey e d s \<Rightarrow> if (d, s) \<in> desired_set desired_shifts e then 1 else 0)"

definition all_required :: "int \<Rightarrow> required" where
  "all_required r =
     (\<lambda>day. if day \<in> set days
            then Some (\<lambda>shift_type. if shift_type \<in> set shift_types then Some r else None)
            else None)"

definition no_solver :: "LpProblem \<Rightarrow> LpVariable \<Rightarrow> real" where
  "no_solver prob v = 0"

definition one_desired :: desired where
  "one_desired = [''a'' \<mapsto> {(1, ''Morning'')}]"

definition off_grid_desired :: desired where
  "off_grid_desired = [''a'' \<mapsto> {(1, ''Morning''), (31, ''Morning''), (1, ''Night'')}]"

definition optimal_solver ::
  "employee list \<Rightarrow> desired \<Rightarrow> required \<Rightarrow> LpProblem \<Rightarrow> LpVariable \<Rightarrow> real" where
  "optimal_solver employees desired_shifts required_shifts prob =
     best_values employees desired_shifts required_shifts"

definition busy_day_required :: required where
  "busy_day_required = (all_required 0)(7 \<mapsto> [''Morning'' \<mapsto> 2, ''Evening'' \<mapsto> 0])"

definition two_desired :: desired where
  "two_desired = [''a'' \<mapsto> {(1, ''Morning'')}, ''b'' \<mapsto> {}]"

definition all_mornings :: "slot set" where
  "all_mornings = set (map (\<lambda>day. (day, ''Morning'')) days)"

definition mornings_desired :: desired where
  "mornings_desired = [''a'' \<mapsto> all_mornings]"

section \<open>Building the model: when it fails and what it builds\<close>

lemma traverse_Inr:
  "(\<And>x. x \<in> set xs \<Longrightarrow> f x = Inr (g x)) \<Longrightarrow> traverse f xs = Inr (map g xs)"
  by (induction xs) auto

lemma traverse_Inl:
  "x \<in> set xs \<Longrightarrow> f x = Inl e \<Longrightarrow> traverse f xs = Inl KeyError"
proof (induction xs)
  case Nil
  then show ?case by simp
next
  case (Cons a xs)
  then show ?case
    by (cases "f a"; cases "traverse f xs") (auto intro: error.exhaust)
qed

lemma concat_map_concat_map:
  "concat (map g (concat (map h xs))) = concat (map (\<lambda>x. concat (map g (h x))) xs)"
  by (induction xs) auto

lemma desired_variables_Inr:
  assumes "\<And>e. e \<in> set employees \<Longrightarrow> desired_shifts e \<noteq> None"
  shows "desired_variables employees desired_shifts =
         Inr [shift_variable e d s. e \<leftarrow> employees, (d, s) \<leftarrow> slots,
                (d, s) \<in> desired_set desired_shifts e]"
proof -
  let ?g = "\<lambda>(e, d, s). if (d, s) \<in> desired_set desired_shifts e
                          then [shift_variable e d s] else []"
  have "traverse
          (\<lambda>(employee, day, shift_type).
             case desired_shifts employee of
               None \<Rightarrow> Inl KeyError
             | Some D \<Rightarrow> Inr (if (day, shift_type) \<in> D
                               then [shift_variable employee day shift_type] else []))
          [(employee, day, shift_type). employee \<leftarrow> employees, (day, shift_type) \<leftarrow> slots]
        = Inr (map ?g [(employee, day, shift_type). employee \<leftarrow> employees, (day, shift_type) \<leftarrow> slots])"
    by (rule traverse_Inr) (use assms in \<open>fastforce simp: desired_set_def split: option.splits\<close>)
  then show ?thesis
    by (simp add: desired_variables_def concat_map_concat_map comp_def case_prod_unfold cong: if_cong)
qed

lemma preference_constraints_Inr:
  assumes "\<And>e. e \<in> set employees \<Longrightarrow> desired_shifts e \<noteq> None"
  shows "preference_constraints employees desired_shifts =
         Inr [lock_constraint e d s. e \<leftarrow> employees, (d, s) \<leftarrow> slots,
                (d, s) \<notin> desired_set desired_shifts e]"
proof -
  let ?g = "\<lambda>(e, d, s). if (d, s) \<notin> desired_set desired_shifts e
                          then [lock_constraint e d s] else []"
  have "traverse
          (\<lambda>(employee, day, shift_type).
             case desired_shifts employee of
               None \<Rightarrow> Inl KeyError
             | Some D \<Rightarrow> Inr (if (day, shift_type) \<notin> D
                               then [lock_constraint employee day shift_type] else []))
          [(employee, day, shift_type). employee \<leftarrow> employees, (day, shift_type) \<leftarrow> slots]
        = Inr (map ?g [(employee, day, shift_type). employee \<leftarrow> employees, (day, shift_type) \<leftarrow> slots])"
    by (rule traverse_Inr) (use assms in \<open>fastforce simp: desired_set_def split: option.splits\<close>)
  then show ?thesis
    by (simp add: preference_constraints_def concat_map_concat_map comp_def case_prod_unfold cong: if_cong)
qed

lemma coverage_constraints_Inr:
  assumes "required_complete required_shifts"
  shows "coverage_constraints employees required_shifts =
         Inr (map (\<lambda>(d, s). coverage_constraint employees d s (required_count required_shifts d s))
                slots)"
  unfolding coverage_constraints_def
  by (rule traverse_Inr)
     (use assms in \<open>auto simp: required_complete_def required_count_def list_all_iff
                      split: option.splits\<close>)

lemma slots_nonempty: "(1, ''Morning'') \<in> set slots"
  by (simp add: slots_def days_def shift_types_def)

lemma desired_variables_Inl:
  assumes "e \<in> set employees" "desired_shifts e = None"
  shows "desired_variables employees desired_shifts = Inl KeyError"
proof -
  have "(e, 1, ''Morning'') \<in> set [(employee, day, shift_type).
           employee \<leftarrow> employees, (day, shift_type) \<leftarrow> slots]"
    using assms(1) slots_nonempty by auto
  then have "traverse
          (\<lambda>(employee, day, shift_type).
             case desired_shifts employee of
               None \<Rightarrow> Inl KeyError
             | Some D \<Rightarrow> Inr (if (day, shift_type) \<in> D
                               then [shift_variable employee day shift_type] else []))
          [(employee, day, shift_type). employee \<leftarrow> employees, (day, shift_type) \<leftarrow> slots]
        = Inl KeyError"
    by (rule traverse_Inl) (simp add: assms(2))
  then show ?thesis
    by (simp add: desired_variables_def)
qed

lemma coverage_constraints_Inl:
  assumes "\<not> required_complete required_shifts"
  shows "coverage_constraints employees required_shifts = Inl KeyError"
proof -
  from assms obtain d s where ds: "(d, s) \<in> set slots"
    and miss: "(case required_shifts d of None \<Rightarrow> False | Some m \<Rightarrow> m s \<noteq> None) = False"
    by (auto simp: required_complete_def list_all_iff)
  show ?thesis
    unfolding coverage_constraints_def
    by (rule traverse_Inl [OF ds, where e = KeyError])
       (use miss in \<open>auto split: option.splits\<close>)
qed

lemma build_problem_Inr:
  assumes "desired_complete employees desired_shifts" "required_complete required_shifts"
  shows "build_problem employees desired_shifts required_shifts =
         Inr \<lparr>sense = LpMinimize,
              variables = map snd shortages @ map snd (shifts employees),
              objective =
                aff_sub (lpSum [shortage_variable d s. (d, s) \<leftarrow> slots])
                  (lpSum [shift_variable e d s. e \<leftarrow> employees, (d, s) \<leftarrow> slots,
                            (d, s) \<in> desired_set desired_shifts e]),
              constraints =
                map (\<lambda>(d, s). coverage_constraint employees d s
                                 (required_count required_shifts d s)) slots @
                [lock_constraint e d s. e \<leftarrow> employees, (d, s) \<leftarrow> slots,
                   (d, s) \<notin> desired_set desired_shifts e]\<rparr>"
proof -
  have d: "\<And>e. e \<in> set employees \<Longrightarrow> desired_shifts e \<noteq> None"
    using assms(1) by (simp add: desired_complete_def list_all_iff)
  show ?thesis
    by (simp add: build_problem_def build_objective_def desired_variables_Inr [OF d]
          preference_constraints_Inr [OF d] coverage_constraints_Inr [OF assms(2)])
qed

lemma build_problem_Inl:
  assumes "\<not> (desired_complete employees desired_shifts \<and> required_complete required_shifts)"
  shows "build_problem employees desired_shifts required_shifts = Inl KeyError"
proof (cases "desired_complete employees desired_shifts")
  case False
  then obtain e where "e \<in> set employees" "desired_shifts e = None"
    by (auto simp: desired_complete_def list_all_iff)
  then show ?thesis
    by (simp add: build_problem_def build_objective_def desired_variables_Inl)
next
  case True
  with assms have "\<not> required_complete required_shifts" by simp
  then show ?thesis
    by (simp add: build_problem_def coverage_constraints_Inl split: sum.splits)
       (metis error.exhaust)
qed

lemma aff_value_append: "aff_value val (a @ b) = aff_value val a + aff_value val b"
  by (simp add: aff_value_def)

lemma aff_value_lpSum: "aff_value val (lpSum vs) = (\<Sum>v\<leftarrow>vs. val v)"
  by (simp add: aff_value_def lpSum_def comp_def)

lemma aff_value_sub: "aff_value val (aff_sub a b) = aff_value val a - aff_value val b"
proof -
  have "(\<Sum>(v, c)\<leftarrow>map (\<lambda>(v, c). (v, - c)) b. c * val v) = - (\<Sum>(v, c)\<leftarrow>b. c * val v)"
    by (induction b) auto
  then show ?thesis
    by (simp add: aff_value_def aff_sub_def)
qed

lemma sum_list_swap:
  fixes f :: "'a \<Rightarrow> 'b \<Rightarrow> real"
  shows "(\<Sum>x\<leftarrow>xs. \<Sum>y\<leftarrow>ys. f x y) = (\<Sum>y\<leftarrow>ys. \<Sum>x\<leftarrow>xs. f x y)"
  by (induction xs) (simp_all add: sum_list_addf)

lemma sum_list_filter_if:
  fixes f :: "'a \<Rightarrow> real"
  shows "sum_list (concat (map (\<lambda>x. if P x then [f x] else []) xs))
         = (\<Sum>x\<leftarrow>xs. if P x then f x else 0)"
  by (induction xs) simp_all

lemma sum_list_squeeze:
  fixes f g :: "'a \<Rightarrow> real"
  assumes "\<And>k. k \<in> set ks \<Longrightarrow> g k \<le> f k"
    and "(\<Sum>k\<leftarrow>ks. f k) \<le> (\<Sum>k\<leftarrow>ks. g k)"
    and "k \<in> set ks"
  shows "f k = g k"
  using assms
proof (induction ks)
  case Nil
  then show ?case by simp
next
  case (Cons a ks)
  have tail: "(\<Sum>k\<leftarrow>ks. g k) \<le> (\<Sum>k\<leftarrow>ks. f k)"
    by (rule sum_list_mono) (simp add: Cons.prems(1))
  have head: "g a \<le> f a"
    by (simp add: Cons.prems(1))
  from Cons.prems(2) have total: "f a + (\<Sum>k\<leftarrow>ks. f k) \<le> g a + (\<Sum>k\<leftarrow>ks. g k)"
    by simp
  show ?case
  proof (cases "k = a")
    case True
    from tail head total have "f a = g a" by linarith
    with True show ?thesis by simp
  next
    case False
    with Cons.prems(3) have "k \<in> set ks" by simp
    moreover from tail head total have "(\<Sum>k\<leftarrow>ks. f k) \<le> (\<Sum>k\<leftarrow>ks. g k)" by linarith
    ultimately show ?thesis
      using Cons.IH Cons.prems(1) by simp
  qed
qed

lemma granted_le_count:
  fixes x :: "'a \<Rightarrow> real"
  assumes "\<And>e. e \<in> set es \<Longrightarrow> x e = 0 \<or> x e = 1"
  shows "(\<Sum>e\<leftarrow>es. if P e then x e else 0) \<le> real (length (filter P es))"
  using assms
proof (induction es)
  case Nil
  then show ?case by simp
next
  case (Cons a es)
  have "x a = 0 \<or> x a = 1" by (simp add: Cons.prems)
  moreover have "(\<Sum>e\<leftarrow>es. if P e then x e else 0) \<le> real (length (filter P es))"
    by (rule Cons.IH) (simp add: Cons.prems)
  ultimately show ?case by auto
qed

lemma granted_eq_count:
  fixes x :: "'a \<Rightarrow> real"
  assumes "\<And>e. e \<in> set es \<Longrightarrow> x e = 0 \<or> x e = 1"
    and "(\<Sum>e\<leftarrow>es. if P e then x e else 0) = real (length (filter P es))"
    and "e \<in> set es" "P e"
  shows "x e = 1"
proof -
  have le: "\<And>k. k \<in> set es \<Longrightarrow> (if P k then x k else 0) \<le> (if P k then 1 else (0::real))"
  proof -
    fix k assume "k \<in> set es"
    then have "x k = 0 \<or> x k = 1" by (rule assms(1))
    then show "(if P k then x k else 0) \<le> (if P k then 1 else (0::real))" by auto
  qed
  have cnt: "(\<Sum>e\<leftarrow>es. if P e then 1 else (0::real)) = real (length (filter P es))"
    by (induction es) simp_all
  have "(if P e then 1 else (0::real)) = (if P e then x e else 0)"
    by (rule sum_list_squeeze [where ks = es and k = e])
       (use le assms(2,3) cnt in auto)
  with assms(4) show ?thesis by simp
qed

lemma locked_sum:
  fixes x :: "'a \<Rightarrow> real"
  assumes "\<And>e. e \<in> set es \<Longrightarrow> \<not> P e \<Longrightarrow> x e = 0"
  shows "(\<Sum>e\<leftarrow>es. x e) = (\<Sum>e\<leftarrow>es. if P e then x e else 0)"
  by (rule arg_cong [where f = sum_list]) (use assms in auto)

section \<open>The feasible and the optimal assignments of the model\<close>

lemma error_KeyError: "(e::error) = KeyError"
  by (cases e) simp

lemma build_problem_cases:
  "build_problem employees desired_shifts required_shifts =
     (if desired_complete employees desired_shifts \<and> required_complete required_shifts
      then Inr \<lparr>sense = LpMinimize,
              variables = map snd shortages @ map snd (shifts employees),
              objective =
                aff_sub (lpSum [shortage_variable d s. (d, s) \<leftarrow> slots])
                  (lpSum [shift_variable e d s. e \<leftarrow> employees, (d, s) \<leftarrow> slots,
                            (d, s) \<in> desired_set desired_shifts e]),
              constraints =
                map (\<lambda>(d, s). coverage_constraint employees d s
                                 (required_count required_shifts d s)) slots @
                [lock_constraint e d s. e \<leftarrow> employees, (d, s) \<leftarrow> slots,
                   (d, s) \<notin> desired_set desired_shifts e]\<rparr>
      else Inl KeyError)"
  using build_problem_Inr [of employees desired_shifts required_shifts]
    build_problem_Inl [of employees desired_shifts required_shifts]
  by (simp split: if_splits)

lemma set_dict_keys: "set (dict_keys ks) = set ks"
  by (simp add: dict_keys_def)

lemma distinct_dict_keys: "distinct (dict_keys ks)"
  by (simp add: dict_keys_def)

lemma set_variables:
  "set (map snd shortages @ map snd (shifts employees)) =
     {shortage_variable d s | d s. (d, s) \<in> set slots} \<union>
     {shift_variable e d s | e d s. e \<in> set employees \<and> (d, s) \<in> set slots}"
  by (auto simp: shortages_def shifts_def set_dict_keys image_iff) force+

lemma set_constraints:
  "set (map (\<lambda>(d, s). coverage_constraint employees d s (R d s)) slots @
        [lock_constraint e d s. e \<leftarrow> employees, (d, s) \<leftarrow> slots, (d, s) \<notin> D e]) =
     {coverage_constraint employees d s (R d s) | d s. (d, s) \<in> set slots} \<union>
     {lock_constraint e d s | e d s. e \<in> set employees \<and> (d, s) \<in> set slots \<and> (d, s) \<notin> D e}"
proof -
  have a: "set (map (\<lambda>(d, s). coverage_constraint employees d s (R d s)) slots) =
      {coverage_constraint employees d s (R d s) | d s. (d, s) \<in> set slots}"
    by (auto simp: image_iff)
  have b: "set [lock_constraint e d s. e \<leftarrow> employees, (d, s) \<leftarrow> slots, (d, s) \<notin> D e] =
      {lock_constraint e d s | e d s. e \<in> set employees \<and> (d, s) \<in> set slots \<and> (d, s) \<notin> D e}"
    by (auto split: if_splits)
  show ?thesis
    unfolding set_append a b ..
qed

lemma in_domain_shortage: "in_domain (shortage_variable d s) x \<longleftrightarrow> 0 \<le> x"
  by (simp add: in_domain_def shortage_variable_def)

lemma in_domain_shift: "in_domain (shift_variable e d s) x \<longleftrightarrow> x = 0 \<or> x = 1"
  by (simp add: in_domain_def shift_variable_def)

lemma satisfies_coverage:
  "satisfies val (coverage_constraint employees d s r) \<longleftrightarrow>
     of_int r \<le> (\<Sum>e\<leftarrow>employees. val (shift_variable e d s)) + val (shortage_variable d s)"
  by (simp add: satisfies_def coverage_constraint_def aff_add_def aff_value_append
        aff_value_lpSum comp_def)
     (simp add: aff_value_def)

lemma satisfies_lock:
  "satisfies val (lock_constraint e d s) \<longleftrightarrow> val (shift_variable e d s) = 0"
  by (simp add: satisfies_def lock_constraint_def aff_value_def)

lemma feasible_built:
  assumes "build_problem employees desired_shifts required_shifts = Inr prob"
  shows "feasible prob val \<longleftrightarrow>
     (\<forall>(d, s)\<in>set slots. 0 \<le> val (shortage_variable d s)) \<and>
     (\<forall>e\<in>set employees. \<forall>(d, s)\<in>set slots.
        val (shift_variable e d s) = 0 \<or> val (shift_variable e d s) = 1) \<and>
     (\<forall>(d, s)\<in>set slots.
        of_int (required_count required_shifts d s)
          \<le> (\<Sum>e\<leftarrow>employees. val (shift_variable e d s)) + val (shortage_variable d s)) \<and>
     (\<forall>e\<in>set employees. \<forall>(d, s)\<in>set slots.
        (d, s) \<notin> desired_set desired_shifts e \<longrightarrow> val (shift_variable e d s) = 0)"
proof -
  from assms have prob: "prob = \<lparr>sense = LpMinimize,
              variables = map snd shortages @ map snd (shifts employees),
              objective =
                aff_sub (lpSum [shortage_variable d s. (d, s) \<leftarrow> slots])
                  (lpSum [shift_variable e d s. e \<leftarrow> employees, (d, s) \<leftarrow> slots,
                            (d, s) \<in> desired_set desired_shifts e]),
              constraints =
                map (\<lambda>(d, s). coverage_constraint employees d s
                                 (required_count required_shifts d s)) slots @
                [lock_constraint e d s. e \<leftarrow> employees, (d, s) \<leftarrow> slots,
                   (d, s) \<notin> desired_set desired_shifts e]\<rparr>"
    by (simp add: build_problem_cases split: if_splits)
  have vars: "set (variables prob) =
       {shortage_variable d s | d s. (d, s) \<in> set slots} \<union>
       {shift_variable e d s | e d s. e \<in> set employees \<and> (d, s) \<in> set slots}"
    unfolding prob by (simp only: LpProblem.simps set_variables)
  have cons: "set (constraints prob) =
       {coverage_constraint employees d s (required_count required_shifts d s) | d s.
          (d, s) \<in> set slots} \<union>
       {lock_constraint e d s | e d s. e \<in> set employees \<and> (d, s) \<in> set slots \<and>
          (d, s) \<notin> desired_set desired_shifts e}"
    unfolding prob by (simp only: LpProblem.simps set_constraints)
  have dom: "(\<forall>v\<in>set (variables prob). in_domain v (val v)) \<longleftrightarrow>
     (\<forall>(d, s)\<in>set slots. 0 \<le> val (shortage_variable d s)) \<and>
     (\<forall>e\<in>set employees. \<forall>(d, s)\<in>set slots.
        val (shift_variable e d s) = 0 \<or> val (shift_variable e d s) = 1)"
  proof -
    have "(\<forall>v\<in>set (variables prob). in_domain v (val v)) \<longleftrightarrow>
       (\<forall>(d, s)\<in>set slots. in_domain (shortage_variable d s) (val (shortage_variable d s))) \<and>
       (\<forall>e\<in>set employees. \<forall>(d, s)\<in>set slots.
          in_domain (shift_variable e d s) (val (shift_variable e d s)))"
      unfolding vars by blast
    then show ?thesis
      by (simp only: in_domain_shortage in_domain_shift)
  qed
  have con: "(\<forall>c\<in>set (constraints prob). satisfies val c) \<longleftrightarrow>
     (\<forall>(d, s)\<in>set slots.
        of_int (required_count required_shifts d s)
          \<le> (\<Sum>e\<leftarrow>employees. val (shift_variable e d s)) + val (shortage_variable d s)) \<and>
     (\<forall>e\<in>set employees. \<forall>(d, s)\<in>set slots.
        (d, s) \<notin> desired_set desired_shifts e \<longrightarrow> val (shift_variable e d s) = 0)"
  proof -
    have "(\<forall>c\<in>set (constraints prob). satisfies val c) \<longleftrightarrow>
       (\<forall>(d, s)\<in>set slots.
          satisfies val (coverage_constraint employees d s (required_count required_shifts d s))) \<and>
       (\<forall>e\<in>set employees. \<forall>(d, s)\<in>set slots.
          (d, s) \<notin> desired_set desired_shifts e \<longrightarrow> satisfies val (lock_constraint e d s))"
      unfolding cons by blast
    then show ?thesis
      by (simp only: satisfies_coverage satisfies_lock)
  qed
  show ?thesis
    unfolding feasible_def list_all_iff dom con by blast
qed


lemma sum_list_concat_if:
  fixes val :: "'b \<Rightarrow> real"
  shows "(\<Sum>v\<leftarrow>concat (map (\<lambda>x. if P x then [g x] else []) xs). val v)
         = (\<Sum>x\<leftarrow>xs. if P x then val (g x) else 0)"
  by (induction xs) simp_all

lemma sum_list_concat_map:
  fixes val :: "'b \<Rightarrow> real"
  shows "(\<Sum>v\<leftarrow>concat (map h xs). val v) = (\<Sum>x\<leftarrow>xs. \<Sum>v\<leftarrow>h x. val v)"
  by (induction xs) simp_all

lemma objective_built:
  assumes "build_problem employees desired_shifts required_shifts = Inr prob"
  shows "aff_value val (objective prob) =
     (\<Sum>(d, s)\<leftarrow>slots.
        val (shortage_variable d s)
        - (\<Sum>e\<leftarrow>employees.
             if (d, s) \<in> desired_set desired_shifts e then val (shift_variable e d s) else 0))"
proof -
  from assms have obj: "objective prob =
      aff_sub (lpSum [shortage_variable d s. (d, s) \<leftarrow> slots])
        (lpSum [shift_variable e d s. e \<leftarrow> employees, (d, s) \<leftarrow> slots,
                  (d, s) \<in> desired_set desired_shifts e])"
    by (auto simp: build_problem_cases split: if_splits)
  have granted: "(\<Sum>v\<leftarrow>[shift_variable e d s. e \<leftarrow> employees, (d, s) \<leftarrow> slots,
                          (d, s) \<in> desired_set desired_shifts e]. val v) =
      (\<Sum>k\<leftarrow>slots. \<Sum>e\<leftarrow>employees.
         if k \<in> desired_set desired_shifts e then val (shift_variable e (fst k) (snd k)) else 0)"
    (is "?l = ?r")
  proof -
    have "?l = (\<Sum>e\<leftarrow>employees. \<Sum>k\<leftarrow>slots.
         if k \<in> desired_set desired_shifts e then val (shift_variable e (fst k) (snd k)) else 0)"
    proof -
      have one: "\<And>c a. sum_list (map val (if c then [a] else [])) = (if c then val a else 0)"
        by simp
      show ?thesis
        by (simp add: sum_list_concat_map case_prod_unfold one)
    qed
    also have "\<dots> = ?r"
      by (rule sum_list_swap)
    finally show ?thesis .
  qed
  have "aff_value val (objective prob) =
      (\<Sum>k\<leftarrow>slots. val (shortage_variable (fst k) (snd k))) -
      (\<Sum>k\<leftarrow>slots. \<Sum>e\<leftarrow>employees.
         if k \<in> desired_set desired_shifts e then val (shift_variable e (fst k) (snd k)) else 0)"
    unfolding obj aff_value_sub aff_value_lpSum granted
    by (simp add: comp_def case_prod_unfold)
  also have "\<dots> = (\<Sum>k\<leftarrow>slots. val (shortage_variable (fst k) (snd k)) -
      (\<Sum>e\<leftarrow>employees.
         if k \<in> desired_set desired_shifts e then val (shift_variable e (fst k) (snd k)) else 0))"
    by (simp add: sum_list_subtractf)
  finally show ?thesis
    by (simp add: case_prod_unfold)
qed

lemma slot_bound:
  fixes x :: "'a \<Rightarrow> real"
  assumes bin: "\<And>e. e \<in> set es \<Longrightarrow> x e = 0 \<or> x e = 1"
    and lock: "\<And>e. e \<in> set es \<Longrightarrow> \<not> P e \<Longrightarrow> x e = 0"
    and cov: "r \<le> (\<Sum>e\<leftarrow>es. x e) + sh"
    and nn: "0 \<le> sh"
  shows "max 0 (r - real (length (filter P es))) - real (length (filter P es))
         \<le> sh - (\<Sum>e\<leftarrow>es. if P e then x e else 0)"
    and "sh - (\<Sum>e\<leftarrow>es. if P e then x e else 0)
           \<le> max 0 (r - real (length (filter P es))) - real (length (filter P es))
         \<Longrightarrow> sh = max 0 (r - real (length (filter P es)))
           \<and> (\<Sum>e\<leftarrow>es. if P e then x e else 0) = real (length (filter P es))"
proof -
  have a: "(\<Sum>e\<leftarrow>es. x e) = (\<Sum>e\<leftarrow>es. if P e then x e else 0)"
    by (rule locked_sum) (rule lock)
  have b: "(\<Sum>e\<leftarrow>es. if P e then x e else 0) \<le> real (length (filter P es))"
    by (rule granted_le_count) (rule bin)
  from a b cov nn
  show "max 0 (r - real (length (filter P es))) - real (length (filter P es))
         \<le> sh - (\<Sum>e\<leftarrow>es. if P e then x e else 0)"
    by linarith
  from a b cov nn
  show "sh - (\<Sum>e\<leftarrow>es. if P e then x e else 0)
           \<le> max 0 (r - real (length (filter P es))) - real (length (filter P es))
         \<Longrightarrow> sh = max 0 (r - real (length (filter P es)))
           \<and> (\<Sum>e\<leftarrow>es. if P e then x e else 0) = real (length (filter P es))"
    by linarith
qed

lemma best_values_shortage:
  "best_values employees desired_shifts required_shifts (shortage_variable d s) =
     max 0 (of_int (required_count required_shifts d s)
            - real (desire_count employees desired_shifts d s))"
  by (simp add: best_values_def shortage_variable_def)

lemma best_values_shift:
  "best_values employees desired_shifts required_shifts (shift_variable e d s) =
     (if (d, s) \<in> desired_set desired_shifts e then 1 else 0)"
  by (simp add: best_values_def shift_variable_def)

lemma count_as_sum:
  "(\<Sum>e\<leftarrow>es. if P e then 1 else (0::real)) = real (length (filter P es))"
  by (induction es) simp_all

lemma sense_built:
  "build_problem employees desired_shifts required_shifts = Inr prob \<Longrightarrow> sense prob = LpMinimize"
  by (auto simp: build_problem_cases split: if_splits)

lemma feasible_best:
  assumes "build_problem employees desired_shifts required_shifts = Inr prob"
  shows "feasible prob (best_values employees desired_shifts required_shifts)"
  unfolding feasible_built [OF assms] best_values_shortage best_values_shift
  by (auto simp: count_as_sum desire_count_def)

lemma slot_cost_best:
  "best_values employees desired_shifts required_shifts (shortage_variable d s)
     - (\<Sum>e\<leftarrow>employees.
          if (d, s) \<in> desired_set desired_shifts e
          then best_values employees desired_shifts required_shifts (shift_variable e d s) else 0)
   = max 0 (of_int (required_count required_shifts d s)
            - real (desire_count employees desired_shifts d s))
     - real (desire_count employees desired_shifts d s)"
proof -
  have "(\<Sum>e\<leftarrow>employees.
          if (d, s) \<in> desired_set desired_shifts e
          then best_values employees desired_shifts required_shifts (shift_variable e d s) else 0)
      = (\<Sum>e\<leftarrow>employees. if (d, s) \<in> desired_set desired_shifts e then 1 else (0::real))"
    by (rule arg_cong [where f = sum_list]) (simp add: best_values_shift)
  then show ?thesis
    by (simp only: best_values_shortage count_as_sum desire_count_def)
qed

lemma slot_cost_feasible:
  assumes b: "build_problem employees desired_shifts required_shifts = Inr prob"
    and f: "feasible prob val"
    and k: "(d, s) \<in> set slots"
  shows "max 0 (of_int (required_count required_shifts d s)
                - real (desire_count employees desired_shifts d s))
         - real (desire_count employees desired_shifts d s)
         \<le> val (shortage_variable d s)
           - (\<Sum>e\<leftarrow>employees.
                if (d, s) \<in> desired_set desired_shifts e then val (shift_variable e d s) else 0)"
    and "val (shortage_variable d s)
           - (\<Sum>e\<leftarrow>employees.
                if (d, s) \<in> desired_set desired_shifts e then val (shift_variable e d s) else 0)
         \<le> max 0 (of_int (required_count required_shifts d s)
                - real (desire_count employees desired_shifts d s))
           - real (desire_count employees desired_shifts d s)
       \<Longrightarrow> val (shortage_variable d s)
             = max 0 (of_int (required_count required_shifts d s)
                      - real (desire_count employees desired_shifts d s))
           \<and> (\<Sum>e\<leftarrow>employees.
                if (d, s) \<in> desired_set desired_shifts e then val (shift_variable e d s) else 0)
             = real (desire_count employees desired_shifts d s)"
proof -
  from f k have bin: "\<And>e. e \<in> set employees \<Longrightarrow>
      val (shift_variable e d s) = 0 \<or> val (shift_variable e d s) = 1"
    and lock: "\<And>e. e \<in> set employees \<Longrightarrow> \<not> (d, s) \<in> desired_set desired_shifts e \<Longrightarrow>
      val (shift_variable e d s) = 0"
    and cov: "of_int (required_count required_shifts d s)
          \<le> (\<Sum>e\<leftarrow>employees. val (shift_variable e d s)) + val (shortage_variable d s)"
    and nn: "0 \<le> val (shortage_variable d s)"
    unfolding feasible_built [OF b] by blast+
  note sb = slot_bound [where x = "\<lambda>e. val (shift_variable e d s)"
      and P = "\<lambda>e. (d, s) \<in> desired_set desired_shifts e", OF bin lock cov nn]
  show "max 0 (of_int (required_count required_shifts d s)
                - real (desire_count employees desired_shifts d s))
         - real (desire_count employees desired_shifts d s)
         \<le> val (shortage_variable d s)
           - (\<Sum>e\<leftarrow>employees.
                if (d, s) \<in> desired_set desired_shifts e then val (shift_variable e d s) else 0)"
    unfolding desire_count_def by (rule sb(1))
  show "val (shortage_variable d s)
           - (\<Sum>e\<leftarrow>employees.
                if (d, s) \<in> desired_set desired_shifts e then val (shift_variable e d s) else 0)
         \<le> max 0 (of_int (required_count required_shifts d s)
                - real (desire_count employees desired_shifts d s))
           - real (desire_count employees desired_shifts d s)
       \<Longrightarrow> val (shortage_variable d s)
             = max 0 (of_int (required_count required_shifts d s)
                      - real (desire_count employees desired_shifts d s))
           \<and> (\<Sum>e\<leftarrow>employees.
                if (d, s) \<in> desired_set desired_shifts e then val (shift_variable e d s) else 0)
             = real (desire_count employees desired_shifts d s)"
    unfolding desire_count_def by (rule sb(2))
qed

lemma optimal_best:
  assumes b: "build_problem employees desired_shifts required_shifts = Inr prob"
  shows "optimal prob (best_values employees desired_shifts required_shifts)"
proof -
  let ?best = "best_values employees desired_shifts required_shifts"
  have "aff_value ?best (objective prob) \<le> aff_value other (objective prob)"
    if f: "feasible prob other" for other
    unfolding objective_built [OF b]
  proof (rule sum_list_mono)
    fix k :: slot assume kin: "k \<in> set slots"
    obtain d s where kd: "k = (d, s)" by (cases k)
    from slot_cost_feasible(1) [OF b f kin [unfolded kd]]
    show "(case k of (d, s) \<Rightarrow> ?best (shortage_variable d s)
                 - (\<Sum>e\<leftarrow>employees. if (d, s) \<in> desired_set desired_shifts e
                                     then ?best (shift_variable e d s) else 0))
            \<le> (case k of (d, s) \<Rightarrow> other (shortage_variable d s)
                 - (\<Sum>e\<leftarrow>employees. if (d, s) \<in> desired_set desired_shifts e
                                     then other (shift_variable e d s) else 0))"
      unfolding kd by (simp only: prod.case slot_cost_best)
  qed
  then show ?thesis
    by (simp add: optimal_def feasible_best [OF b] sense_built [OF b] better_def)
qed

lemma optimal_unique:
  assumes b: "build_problem employees desired_shifts required_shifts = Inr prob"
    and opt: "optimal prob val"
    and k: "(d, s) \<in> set slots"
  shows "val (shortage_variable d s) =
           best_values employees desired_shifts required_shifts (shortage_variable d s)"
    and "e \<in> set employees \<Longrightarrow>
         val (shift_variable e d s) =
           best_values employees desired_shifts required_shifts (shift_variable e d s)"
proof -
  let ?best = "best_values employees desired_shifts required_shifts"
  let ?cost = "\<lambda>v (d, s). v (shortage_variable d s)
                 - (\<Sum>e\<leftarrow>employees. if (d, s) \<in> desired_set desired_shifts e
                                     then v (shift_variable e d s) else (0::real))"
  from opt have f: "feasible prob val"
    by (simp add: optimal_def)
  from opt have "aff_value val (objective prob) \<le> aff_value ?best (objective prob)"
    using feasible_best [OF b] by (simp add: optimal_def sense_built [OF b] better_def)
  then have total: "(\<Sum>k\<leftarrow>slots. ?cost val k) \<le> (\<Sum>k\<leftarrow>slots. ?cost ?best k)"
    by (simp only: objective_built [OF b])
  have each: "?cost ?best k \<le> ?cost val k" if kin: "k \<in> set slots" for k
  proof -
    obtain d' s' where kd: "k = (d', s')" by (cases k)
    from slot_cost_feasible(1) [OF b f kin [unfolded kd]]
    show ?thesis
      unfolding kd by (simp only: prod.case slot_cost_best)
  qed
  have "?cost val (d, s) = ?cost ?best (d, s)"
    by (rule sum_list_squeeze [where ks = slots, OF each total k])
  then have "?cost val (d, s) \<le> ?cost ?best (d, s)"
    by simp
  then have eq: "val (shortage_variable d s)
             = max 0 (of_int (required_count required_shifts d s)
                      - real (desire_count employees desired_shifts d s))
           \<and> (\<Sum>e\<leftarrow>employees.
                if (d, s) \<in> desired_set desired_shifts e then val (shift_variable e d s) else 0)
             = real (desire_count employees desired_shifts d s)"
    by (intro slot_cost_feasible(2) [OF b f k]) (simp only: prod.case slot_cost_best)
  from eq show "val (shortage_variable d s) = ?best (shortage_variable d s)"
    by (simp only: best_values_shortage)
  from f k have bin: "\<And>e. e \<in> set employees \<Longrightarrow>
      val (shift_variable e d s) = 0 \<or> val (shift_variable e d s) = 1"
    and lock: "\<And>e. e \<in> set employees \<Longrightarrow> \<not> (d, s) \<in> desired_set desired_shifts e \<Longrightarrow>
      val (shift_variable e d s) = 0"
    unfolding feasible_built [OF b] by blast+
  show "val (shift_variable e d s) = ?best (shift_variable e d s)" if e: "e \<in> set employees"
  proof (cases "(d, s) \<in> desired_set desired_shifts e")
    case True
    have "val (shift_variable e d s) = 1"
      by (rule granted_eq_count [where es = employees
            and P = "\<lambda>e. (d, s) \<in> desired_set desired_shifts e"
            and x = "\<lambda>e. val (shift_variable e d s)"])
         (use bin eq e True in \<open>simp_all add: desire_count_def\<close>)
    with True show ?thesis by (simp add: best_values_shift)
  next
    case False
    with lock [OF e] show ?thesis by (simp add: best_values_shift)
  qed
qed

section \<open>Missing keys\<close>

lemma set_slots: "set slots = set days \<times> set shift_types"
  by (auto simp: slots_def)

lemma required_complete_iff:
  "required_complete required_shifts \<longleftrightarrow>
     (\<forall>day\<in>set days. \<exists>m. required_shifts day = Some m \<and>
        (\<forall>shift_type\<in>set shift_types. m shift_type \<noteq> None))"
proof -
  have "required_complete required_shifts \<longleftrightarrow>
     (\<forall>day\<in>set days. \<forall>shift_type\<in>set shift_types.
        case required_shifts day of None \<Rightarrow> False | Some m \<Rightarrow> m shift_type \<noteq> None)"
    by (auto simp: required_complete_def list_all_iff set_slots)
  also have "\<dots> \<longleftrightarrow>
     (\<forall>day\<in>set days. \<exists>m. required_shifts day = Some m \<and>
        (\<forall>shift_type\<in>set shift_types. m shift_type \<noteq> None))"
    by (rule ball_cong [OF refl]) (auto simp: shift_types_def split: option.splits)
  finally show ?thesis .
qed

lemma desired_complete_iff:
  "desired_complete employees desired_shifts \<longleftrightarrow> (\<forall>e\<in>set employees. desired_shifts e \<noteq> None)"
  by (simp add: desired_complete_def list_all_iff)

lemma required_complete_all [simp]: "required_complete (all_required r)"
  by (simp add: required_complete_iff all_required_def)

lemma required_count_all:
  "(d, s) \<in> set slots \<Longrightarrow> required_count (all_required r) d s = r"
  by (simp add: required_count_def all_required_def set_slots)

text \<open>
  Claim C8. Whenever \<open>desired_shifts\<close> has no entry for an employee of the list, or
  \<open>required_shifts\<close> has no entry for one of the days 1 to 30, or the entry of such a day
  has no entry for one of the two shift types, the call ends with \<open>KeyError\<close> and returns
  no tables, whatever the solver would have done.
\<close>

theorem missing_key_raises_KeyError:
  assumes "(\<exists>e\<in>set employees. desired_shifts e = None) \<or>
           (\<exists>day\<in>set days. required_shifts day = None) \<or>
           (\<exists>day\<in>set days. \<exists>m. required_shifts day = Some m \<and>
              (\<exists>shift_type\<in>set shift_types. m shift_type = None))"
  shows "generate_shifts solve employees desired_shifts required_shifts = Inl KeyError"
proof -
  from assms have "\<not> (desired_complete employees desired_shifts \<and>
                      required_complete required_shifts)"
    unfolding desired_complete_iff required_complete_iff by fastforce
  then have "build_problem employees desired_shifts required_shifts = Inl KeyError"
    by (rule build_problem_Inl)
  then show ?thesis
    by (simp add: generate_shifts_def)
qed

theorem missing_key_raises_KeyError_witness:
  "generate_shifts no_solver [''a''] Map.empty (all_required 1) = Inl KeyError \<and>
   generate_shifts no_solver [] Map.empty ((all_required 1)(7 := None)) = Inl KeyError \<and>
   generate_shifts no_solver [] Map.empty
     ((all_required 1)(7 \<mapsto> [''Morning'' \<mapsto> 1])) = Inl KeyError"
proof -
  have a: "(\<exists>e\<in>set [''a'']. (Map.empty :: desired) e = None) \<or>
           (\<exists>day\<in>set days. all_required 1 day = None) \<or>
           (\<exists>day\<in>set days. \<exists>m. all_required 1 day = Some m \<and>
              (\<exists>shift_type\<in>set shift_types. m shift_type = None))"
    by simp
  have seven: "7 \<in> set days"
    by (simp add: days_def)
  have b: "(\<exists>e\<in>set []. (Map.empty :: desired) e = None) \<or>
           (\<exists>day\<in>set days. ((all_required 1)(7 := None)) day = None) \<or>
           (\<exists>day\<in>set days. \<exists>m. ((all_required 1)(7 := None)) day = Some m \<and>
              (\<exists>shift_type\<in>set shift_types. m shift_type = None))"
    using seven by auto
  have c: "(\<exists>e\<in>set []. (Map.empty :: desired) e = None) \<or>
           (\<exists>day\<in>set days. ((all_required 1)(7 \<mapsto> [''Morning'' \<mapsto> 1])) day = None) \<or>
           (\<exists>day\<in>set days. \<exists>m. ((all_required 1)(7 \<mapsto> [''Morning'' \<mapsto> 1])) day = Some m \<and>
              (\<exists>shift_type\<in>set shift_types. m shift_type = None))"
    using seven by (auto simp: shift_types_def)
  show ?thesis
    using missing_key_raises_KeyError [OF a, of no_solver]
      missing_key_raises_KeyError [OF b, of no_solver]
      missing_key_raises_KeyError [OF c, of no_solver]
    by blast
qed

section \<open>The objective\<close>

lemma days_list:
  "days = [1, 2, 3, 4, 5, 6, 7, 8, 9, 10, 11, 12, 13, 14, 15, 16, 17, 18, 19, 20,
           21, 22, 23, 24, 25, 26, 27, 28, 29, 30]"
  unfolding days_def by code_simp

lemma length_slots: "length slots = 60"
  by (simp add: slots_def days_def shift_types_def length_concat comp_def sum_list_triv)

lemma objective_terms:
  "aff_sub (lpSum [shortage_variable d s. (d, s) \<leftarrow> slots])
     (lpSum [shift_variable e d s. e \<leftarrow> employees, (d, s) \<leftarrow> slots, (d, s) \<in> D e]) =
   map (\<lambda>(d, s). (shortage_variable d s, 1)) slots @
   [(shift_variable e d s, - 1). e \<leftarrow> employees, (d, s) \<leftarrow> slots, (d, s) \<in> D e]"
proof -
  have one: "\<And>c a. map (\<lambda>v. (v, - 1 :: real)) (if c then [a] else []) = (if c then [(a, - 1)] else [])"
    by simp
  show ?thesis
    by (simp add: aff_sub_def lpSum_def map_concat comp_def case_prod_unfold one)
qed

text \<open>
  Claim C3. When the model is built, the problem is a minimisation and its objective is
  one term of coefficient 1 for each of the 60 shortage variables followed by one term of
  coefficient -1 for each (employee, slot) of the loops whose slot is in the employee's
  desired set, and nothing else. Its value is the sum of the shortages minus the sum of
  the desired shifts.
\<close>

theorem objective_is_shortage_minus_granted:
  assumes "build_problem employees desired_shifts required_shifts = Inr prob"
  shows "sense prob = LpMinimize \<and>
         length slots = 60 \<and>
         objective prob =
           map (\<lambda>(d, s). (shortage_variable d s, 1)) slots @
           [(shift_variable e d s, - 1). e \<leftarrow> employees, (d, s) \<leftarrow> slots,
              (d, s) \<in> desired_set desired_shifts e] \<and>
         (\<forall>varValue. aff_value varValue (objective prob) =
            (\<Sum>(d, s)\<leftarrow>slots. varValue (shortage_variable d s)) -
            (\<Sum>e\<leftarrow>employees. \<Sum>(d, s)\<leftarrow>slots.
               if (d, s) \<in> desired_set desired_shifts e
               then varValue (shift_variable e d s) else 0))"
proof -
  from assms have obj: "objective prob =
      aff_sub (lpSum [shortage_variable d s. (d, s) \<leftarrow> slots])
        (lpSum [shift_variable e d s. e \<leftarrow> employees, (d, s) \<leftarrow> slots,
                  (d, s) \<in> desired_set desired_shifts e])"
    by (auto simp: build_problem_cases split: if_splits)
  have val: "aff_value varValue (objective prob) =
            (\<Sum>(d, s)\<leftarrow>slots. varValue (shortage_variable d s)) -
            (\<Sum>e\<leftarrow>employees. \<Sum>(d, s)\<leftarrow>slots.
               if (d, s) \<in> desired_set desired_shifts e
               then varValue (shift_variable e d s) else 0)" for varValue
  proof -
    have "(\<Sum>e\<leftarrow>employees. \<Sum>k\<leftarrow>slots.
               if k \<in> desired_set desired_shifts e
               then varValue (shift_variable e (fst k) (snd k)) else 0) =
          (\<Sum>k\<leftarrow>slots. \<Sum>e\<leftarrow>employees.
               if k \<in> desired_set desired_shifts e
               then varValue (shift_variable e (fst k) (snd k)) else 0)"
      by (rule sum_list_swap)
    then show ?thesis
      by (simp add: objective_built [OF assms] case_prod_unfold sum_list_subtractf)
  qed
  show ?thesis
    using sense_built [OF assms] length_slots obj val
    by (simp only: objective_terms) blast
qed

lemma build_one_desired:
  "build_problem [''a''] one_desired (all_required 1) =
     Inr \<lparr>sense = LpMinimize,
          variables = map snd shortages @ map snd (shifts [''a'']),
          objective =
            aff_sub (lpSum [shortage_variable d s. (d, s) \<leftarrow> slots])
              (lpSum [shift_variable e d s. e \<leftarrow> [''a''], (d, s) \<leftarrow> slots,
                        (d, s) \<in> desired_set one_desired e]),
          constraints =
            map (\<lambda>(d, s). coverage_constraint [''a''] d s
                             (required_count (all_required 1) d s)) slots @
            [lock_constraint e d s. e \<leftarrow> [''a''], (d, s) \<leftarrow> slots,
               (d, s) \<notin> desired_set one_desired e]\<rparr>"
  by (simp add: build_problem_cases desired_complete_def one_desired_def)

theorem objective_is_shortage_minus_granted_witness:
  "case build_problem [''a''] one_desired (all_required 1) of
     Inl err \<Rightarrow> False
   | Inr prob \<Rightarrow>
       sense prob = LpMinimize \<and>
       objective prob =
         map (\<lambda>(d, s). (shortage_variable d s, 1)) slots @
         [(shift_variable ''a'' 1 ''Morning'', - 1)]"
proof -
  have granted: "[(shift_variable e d s, - 1 :: real). e \<leftarrow> [''a''], (d, s) \<leftarrow> slots,
              (d, s) \<in> desired_set one_desired e] = [(shift_variable ''a'' 1 ''Morning'', - 1)]"
    by (simp add: desired_set_def one_desired_def slots_def days_list shift_types_def)
  show ?thesis
    using objective_is_shortage_minus_granted [OF build_one_desired]
    by (simp only: build_one_desired sum.case granted)
qed

section \<open>The shortage table\<close>

lemma distinct_labels: "distinct (map (\<lambda>(d, s). slot_label d s) slots)"
  by code_simp

lemma distinct_slots: "distinct slots"
  using distinct_labels by (simp add: distinct_map)

lemma slot_label_inj:
  assumes "(d, s) \<in> set slots" "(d', s') \<in> set slots" "slot_label d s = slot_label d' s'"
  shows "d = d' \<and> s = s'"
proof -
  have "inj_on (\<lambda>(d, s). slot_label d s) (set slots)"
    using distinct_labels by (simp add: distinct_map)
  from inj_onD [OF this, of "(d, s)" "(d', s')"] assms show ?thesis
    by simp
qed

lemma dict_keys_distinct: "distinct ks \<Longrightarrow> dict_keys ks = ks"
  by (simp add: dict_keys_def distinct_remdups_id)

lemma shortages_items:
  "shortages = map (\<lambda>(d, s). ((d, s), shortage_variable d s)) slots"
  by (simp add: shortages_def dict_keys_distinct distinct_slots)

lemma map_filter_concat:
  "map f (filter P xs) = concat (map (\<lambda>x. if P x then [f x] else []) xs)"
  by (induction xs) simp_all

lemma shortages_data_rows:
  "shortages_data val =
     [(slot_label d s, val (shortage_variable d s)).
        (d, s) \<leftarrow> slots, val (shortage_variable d s) \<noteq> 0]"
proof -
  have "shortages_data val =
      map (\<lambda>(d, s). (slot_label d s, val (shortage_variable d s)))
        (filter (\<lambda>(d, s). val (shortage_variable d s) \<noteq> 0) slots)"
    by (simp add: shortages_data_def shortages_items filter_map comp_def case_prod_unfold)
  also have "\<dots> = [(slot_label d s, val (shortage_variable d s)).
        (d, s) \<leftarrow> slots, val (shortage_variable d s) \<noteq> 0]"
    by (simp add: map_filter_concat case_prod_unfold)
  finally show ?thesis .
qed

lemma shortages_data_filter:
  "shortages_data val =
      map (\<lambda>(d, s). (slot_label d s, val (shortage_variable d s)))
        (filter (\<lambda>(d, s). val (shortage_variable d s) \<noteq> 0) slots)"
  by (simp add: shortages_data_def shortages_items filter_map comp_def case_prod_unfold)

lemma shortages_data_keys:
  "distinct (map fst (shortages_data val))"
proof -
  have "map fst (shortages_data val) =
      map (\<lambda>(d, s). slot_label d s) (filter (\<lambda>(d, s). val (shortage_variable d s) \<noteq> 0) slots)"
    by (simp add: shortages_data_filter comp_def case_prod_unfold)
  moreover have "distinct (map (\<lambda>(d, s). slot_label d s)
      (filter (\<lambda>(d, s). val (shortage_variable d s) \<noteq> 0) slots))"
    using distinct_labels by (rule distinct_map_filter)
  ultimately show ?thesis by simp
qed

lemma shortages_data_set:
  "set (shortages_data val) =
     {(slot_label d s, val (shortage_variable d s)) | d s.
        (d, s) \<in> set slots \<and> val (shortage_variable d s) \<noteq> 0}"
  by (auto simp: shortages_data_filter image_iff)

lemma shortages_data_lookup:
  assumes "(d, s) \<in> set slots"
  shows "map_of (shortages_data val) (slot_label d s) =
     (if val (shortage_variable d s) \<noteq> 0 then Some (val (shortage_variable d s)) else None)"
proof (cases "val (shortage_variable d s) \<noteq> 0")
  case True
  then have "(slot_label d s, val (shortage_variable d s)) \<in> set (shortages_data val)"
    using assms unfolding shortages_data_set by blast
  with shortages_data_keys [of val] True show ?thesis
    by simp
next
  case False
  have "slot_label d s \<notin> fst ` set (shortages_data val)"
  proof
    assume "slot_label d s \<in> fst ` set (shortages_data val)"
    then obtain d' s' where k: "(d', s') \<in> set slots" "val (shortage_variable d' s') \<noteq> 0"
      and l: "slot_label d s = slot_label d' s'"
      unfolding shortages_data_set by auto
    from slot_label_inj [OF assms k(1) l] k(2) False show False by simp
  qed
  with False show ?thesis
    by (simp add: map_of_eq_None_iff)
qed

lemma generate_shifts_Inr:
  assumes "build_problem employees desired_shifts required_shifts = Inr prob"
  shows "generate_shifts solve employees desired_shifts required_shifts =
           Inr (pivot_table (shifts_data (solve prob) employees) 0,
                shortages_data (solve prob))"
  by (simp add: generate_shifts_def assms Let_def)

lemma generate_shifts_returns:
  assumes "generate_shifts solve employees desired_shifts required_shifts = Inr (pt, sdf)"
  obtains prob where "build_problem employees desired_shifts required_shifts = Inr prob"
    and "pt = pivot_table (shifts_data (solve prob) employees) 0"
    and "sdf = shortages_data (solve prob)"
  using assms
  by (cases "build_problem employees desired_shifts required_shifts")
     (auto simp: generate_shifts_def Let_def)

text \<open>
  Claim C9. When the function returns, the shortage table is the list, in the order of the
  loops, of the rows (label of the slot, solved shortage) of the slots whose solved
  shortage is not zero. No label occurs twice; the label of a slot is a key of the table
  exactly when the slot's shortage is not zero, and then the row holds that shortage.
\<close>

theorem shortage_table_rows:
  assumes "build_problem employees desired_shifts required_shifts = Inr prob"
    and "generate_shifts solve employees desired_shifts required_shifts = Inr (pt, shortages_df)"
  shows "shortages_df =
           [(slot_label d s, solve prob (shortage_variable d s)).
              (d, s) \<leftarrow> slots, solve prob (shortage_variable d s) \<noteq> 0] \<and>
         distinct (map fst shortages_df) \<and>
         (\<forall>(d, s)\<in>set slots.
            (slot_label d s \<in> fst ` set shortages_df
               \<longleftrightarrow> solve prob (shortage_variable d s) \<noteq> 0) \<and>
            map_of shortages_df (slot_label d s) =
              (if solve prob (shortage_variable d s) \<noteq> 0
               then Some (solve prob (shortage_variable d s)) else None))"
proof -
  from assms have df: "shortages_df = shortages_data (solve prob)"
    by (simp add: generate_shifts_Inr)
  have look: "map_of shortages_df (slot_label d s) =
              (if solve prob (shortage_variable d s) \<noteq> 0
               then Some (solve prob (shortage_variable d s)) else None)"
    if "(d, s) \<in> set slots" for d s
    unfolding df using that by (rule shortages_data_lookup)
  have dom: "slot_label d s \<in> fst ` set shortages_df
               \<longleftrightarrow> solve prob (shortage_variable d s) \<noteq> 0"
    if "(d, s) \<in> set slots" for d s
    using look [OF that] map_of_eq_None_iff [of shortages_df "slot_label d s"]
    by (auto split: if_splits)
  have rows: "shortages_df =
           [(slot_label d s, solve prob (shortage_variable d s)).
              (d, s) \<leftarrow> slots, solve prob (shortage_variable d s) \<noteq> 0]"
    unfolding df by (rule shortages_data_rows)
  have keys: "distinct (map fst shortages_df)"
    unfolding df by (rule shortages_data_keys)
  from look dom have "\<forall>(d, s)\<in>set slots.
            (slot_label d s \<in> fst ` set shortages_df
               \<longleftrightarrow> solve prob (shortage_variable d s) \<noteq> 0) \<and>
            map_of shortages_df (slot_label d s) =
              (if solve prob (shortage_variable d s) \<noteq> 0
               then Some (solve prob (shortage_variable d s)) else None)"
    by blast
  with rows keys show ?thesis
    by (intro conjI)
qed

lemma slots_list:
  "slots = concat (map (\<lambda>day. [(day, ''Morning''), (day, ''Evening'')])
     [1, 2, 3, 4, 5, 6, 7, 8, 9, 10, 11, 12, 13, 14, 15, 16, 17, 18, 19, 20,
      21, 22, 23, 24, 25, 26, 27, 28, 29, 30])"
  by (simp add: slots_def days_list shift_types_def)

lemma required_complete_busy: "required_complete busy_day_required"
  by (simp add: required_complete_iff busy_day_required_def all_required_def shift_types_def)

lemma required_count_busy:
  "(d, s) \<in> set slots \<Longrightarrow>
     required_count busy_day_required d s = (if d = 7 \<and> s = ''Morning'' then 2 else 0)"
  by (auto simp: required_count_def busy_day_required_def all_required_def set_slots shift_types_def)

lemma desire_count_one:
  "desire_count [''a''] one_desired d s = (if d = 1 \<and> s = ''Morning'' then 1 else 0)"
  by (simp add: desire_count_def desired_set_def one_desired_def)

lemma build_busy:
  "\<exists>prob. build_problem [''a''] one_desired busy_day_required = Inr prob"
  by (simp add: build_problem_cases desired_complete_def one_desired_def required_complete_busy)

lemma best_shortage_busy:
  "(d, s) \<in> set slots \<Longrightarrow>
   best_values [''a''] one_desired busy_day_required (shortage_variable d s) =
     (if d = 7 \<and> s = ''Morning'' then 2 else 0)"
  by (simp add: best_values_shortage required_count_busy desire_count_one)

lemma shortage_rows_cong:
  assumes "\<And>d s. (d, s) \<in> set ks \<Longrightarrow> v d s = w d s"
  shows "[(slot_label d s, v d s :: real). (d, s) \<leftarrow> ks, v d s \<noteq> 0] =
         [(slot_label d s, w d s). (d, s) \<leftarrow> ks, w d s \<noteq> 0]"
  by (rule arg_cong [where f = concat]) (use assms in auto)

theorem shortage_table_rows_witness:
  "case generate_shifts (optimal_solver [''a''] one_desired busy_day_required)
          [''a''] one_desired busy_day_required of
     Inl err \<Rightarrow> False
   | Inr (pt, shortages_df) \<Rightarrow>
       shortages_df = [(''7-Morning'', 2)] \<and>
       map_of shortages_df (slot_label 7 ''Morning'') = Some 2 \<and>
       map_of shortages_df (slot_label 1 ''Morning'') = None"
proof -
  let ?solve = "optimal_solver [''a''] one_desired busy_day_required"
  from build_busy obtain prob
    where b: "build_problem [''a''] one_desired busy_day_required = Inr prob" ..
  have g: "generate_shifts ?solve [''a''] one_desired busy_day_required =
        Inr (pivot_table (shifts_data (?solve prob) [''a'']) 0, shortages_data (?solve prob))"
    using b by (rule generate_shifts_Inr)
  have rows: "[(slot_label d s, ?solve prob (shortage_variable d s)).
              (d, s) \<leftarrow> slots, ?solve prob (shortage_variable d s) \<noteq> 0] =
        [(''7-Morning'', 2)]"
  proof -
    have "[(slot_label d s, ?solve prob (shortage_variable d s)).
              (d, s) \<leftarrow> slots, ?solve prob (shortage_variable d s) \<noteq> 0] =
          [(slot_label d s, if d = 7 \<and> s = ''Morning'' then 2 else 0).
              (d, s) \<leftarrow> slots, (if d = 7 \<and> s = ''Morning'' then 2 else (0::real)) \<noteq> 0]"
      by (rule shortage_rows_cong) (simp add: optimal_solver_def best_shortage_busy)
    also have "\<dots> = [(''7-Morning'', 2)]"
      by (simp add: slots_list slot_label_def str_int_def digits.simps)
    finally show ?thesis .
  qed
  have in7: "(7, ''Morning'') \<in> set slots" and in1: "(1, ''Morning'') \<in> set slots"
    by (simp_all add: slots_list)
  from shortage_table_rows [OF b g] have
    "shortages_data (?solve prob) = [(''7-Morning'', 2)]"
    and "\<forall>(d, s)\<in>set slots.
            map_of (shortages_data (?solve prob)) (slot_label d s) =
              (if ?solve prob (shortage_variable d s) \<noteq> 0
               then Some (?solve prob (shortage_variable d s)) else None)"
    unfolding rows by blast+
  with in7 in1 show ?thesis
    unfolding g
    by (auto simp: optimal_solver_def best_shortage_busy slot_label_def str_int_def digits.simps)
qed

section \<open>Desired entries off the grid; zero requirements\<close>

lemma grid_comprehension_cong:
  assumes "\<And>e d s. e \<in> set employees \<Longrightarrow> (d, s) \<in> set slots \<Longrightarrow> P e d s = Q e d s"
  shows "[f e d s. e \<leftarrow> employees, (d, s) \<leftarrow> slots, P e d s] =
         [f e d s. e \<leftarrow> employees, (d, s) \<leftarrow> slots, Q e d s]"
proof -
  have "map (\<lambda>e. concat (map (\<lambda>(d, s). if P e d s then [f e d s] else []) slots)) employees =
        map (\<lambda>e. concat (map (\<lambda>(d, s). if Q e d s then [f e d s] else []) slots)) employees"
  proof (rule map_cong [OF refl])
    fix e assume e: "e \<in> set employees"
    have "map (\<lambda>(d, s). if P e d s then [f e d s] else []) slots =
          map (\<lambda>(d, s). if Q e d s then [f e d s] else []) slots"
      by (rule map_cong [OF refl]) (use assms [OF e] in auto)
    then show "concat (map (\<lambda>(d, s). if P e d s then [f e d s] else []) slots) =
               concat (map (\<lambda>(d, s). if Q e d s then [f e d s] else []) slots)"
      by (rule arg_cong)
  qed
  then show ?thesis by (rule arg_cong)
qed

text \<open>
  Claim C10. Two \<open>desired_shifts\<close> dicts that have entries for the same employees of the
  list and whose sets hold, for each of them, the same ones of the 60 slots, give the same
  result of the model building (the same problem or the same error) and the same result
  of the whole function: what a desired set holds outside the 60 slots is never looked at.
\<close>

theorem off_grid_desires_ignored:
  assumes "\<forall>e\<in>set employees.
             (desired1 e = None \<longleftrightarrow> desired2 e = None) \<and>
             desired_set desired1 e \<inter> set slots = desired_set desired2 e \<inter> set slots"
  shows "build_problem employees desired1 required_shifts =
           build_problem employees desired2 required_shifts \<and>
         generate_shifts solve employees desired1 required_shifts =
           generate_shifts solve employees desired2 required_shifts"
proof -
  from assms have complete:
    "desired_complete employees desired1 = desired_complete employees desired2"
    by (simp add: desired_complete_iff)
  from assms have mem: "(d, s) \<in> desired_set desired1 e \<longleftrightarrow> (d, s) \<in> desired_set desired2 e"
    if "e \<in> set employees" "(d, s) \<in> set slots" for e d s
    using that by blast
  have granted: "[shift_variable e d s. e \<leftarrow> employees, (d, s) \<leftarrow> slots,
                    (d, s) \<in> desired_set desired1 e] =
                 [shift_variable e d s. e \<leftarrow> employees, (d, s) \<leftarrow> slots,
                    (d, s) \<in> desired_set desired2 e]"
    by (rule grid_comprehension_cong) (rule mem)
  have locked: "[lock_constraint e d s. e \<leftarrow> employees, (d, s) \<leftarrow> slots,
                    (d, s) \<notin> desired_set desired1 e] =
                 [lock_constraint e d s. e \<leftarrow> employees, (d, s) \<leftarrow> slots,
                    (d, s) \<notin> desired_set desired2 e]"
    by (rule grid_comprehension_cong) (simp add: mem)
  have "build_problem employees desired1 required_shifts =
        build_problem employees desired2 required_shifts"
    unfolding build_problem_cases complete granted locked ..
  then show ?thesis
    by (simp add: generate_shifts_def)
qed

theorem off_grid_desires_ignored_witness:
  "build_problem [''a''] one_desired (all_required 1) =
     build_problem [''a''] off_grid_desired (all_required 1) \<and>
   generate_shifts no_solver [''a''] one_desired (all_required 1) =
     generate_shifts no_solver [''a''] off_grid_desired (all_required 1)"
proof -
  have "\<forall>e\<in>set [''a''].
          (one_desired e = None \<longleftrightarrow> off_grid_desired e = None) \<and>
          desired_set one_desired e \<inter> set slots = desired_set off_grid_desired e \<inter> set slots"
    by (auto simp: one_desired_def off_grid_desired_def desired_set_def set_slots
          days_def shift_types_def)
  then show ?thesis
    by (rule off_grid_desires_ignored)
qed

lemma required_zero:
  assumes "\<forall>(d, s)\<in>set slots. \<exists>m. required_shifts d = Some m \<and> m s = Some 0"
  shows "required_complete required_shifts"
    and "(d, s) \<in> set slots \<Longrightarrow> required_count required_shifts d s = 0"
  using assms
  by (auto simp: required_complete_def list_all_iff required_count_def split: option.splits)

text \<open>
  Claim C6. When every employee has a desired set and the required headcount of every one
  of the 60 slots is 0, the function returns, under a solver that meets the contract the
  solved shortage of every slot is 0, and the shortage table has no row.
\<close>

theorem zero_required_zero_shortage:
  assumes dc: "desired_complete employees desired_shifts"
    and zero: "\<forall>(d, s)\<in>set slots. \<exists>m. required_shifts d = Some m \<and> m s = Some 0"
    and contract: "\<And>prob. build_problem employees desired_shifts required_shifts = Inr prob
                     \<Longrightarrow> optimal prob (solve prob)"
  shows "\<exists>prob pt.
           build_problem employees desired_shifts required_shifts = Inr prob \<and>
           (\<forall>(d, s)\<in>set slots. solve prob (shortage_variable d s) = 0) \<and>
           generate_shifts solve employees desired_shifts required_shifts = Inr (pt, [])"
proof -
  from dc required_zero(1) [OF zero] obtain prob
    where b: "build_problem employees desired_shifts required_shifts = Inr prob"
    by (simp add: build_problem_cases)
  have opt: "optimal prob (solve prob)"
    using b by (rule contract)
  have sh: "solve prob (shortage_variable d s) = 0" if k: "(d, s) \<in> set slots" for d s
    using optimal_unique(1) [OF b opt k] required_zero(2) [OF zero k]
    by (simp add: best_values_shortage)
  then have "set (shortages_data (solve prob)) = {}"
    unfolding shortages_data_set by blast
  then have "shortages_data (solve prob) = []"
    by simp
  with generate_shifts_Inr [OF b, of solve] sh b show ?thesis
    by auto
qed

theorem zero_required_zero_shortage_witness:
  "case generate_shifts (optimal_solver [''a''] one_desired (all_required 0))
          [''a''] one_desired (all_required 0) of
     Inl err \<Rightarrow> False
   | Inr (pt, shortages_df) \<Rightarrow> shortages_df = []"
proof -
  have dc: "desired_complete [''a''] one_desired"
    by (simp add: desired_complete_def one_desired_def)
  have zero: "\<forall>(d, s)\<in>set slots. \<exists>m. all_required 0 d = Some m \<and> m s = Some 0"
    by (auto simp: all_required_def set_slots)
  have contract: "optimal prob (optimal_solver [''a''] one_desired (all_required 0) prob)"
    if "build_problem [''a''] one_desired (all_required 0) = Inr prob" for prob
    unfolding optimal_solver_def using that by (rule optimal_best)
  from zero_required_zero_shortage [OF dc zero contract]
  show ?thesis
    by auto
qed

section \<open>Coverage\<close>

lemma optimal_assigned_sum:
  assumes b: "build_problem employees desired_shifts required_shifts = Inr prob"
    and opt: "optimal prob val"
    and k: "(d, s) \<in> set slots"
  shows "(\<Sum>e\<leftarrow>employees. val (shift_variable e d s)) =
           real (desire_count employees desired_shifts d s)"
proof -
  have "(\<Sum>e\<leftarrow>employees. val (shift_variable e d s)) =
        (\<Sum>e\<leftarrow>employees. if (d, s) \<in> desired_set desired_shifts e then 1 else (0::real))"
    by (rule arg_cong [where f = sum_list], rule map_cong [OF refl])
       (simp add: optimal_unique(2) [OF b opt k] best_values_shift)
  then show ?thesis
    by (simp add: count_as_sum desire_count_def)
qed

text \<open>
  Claim C1, as the code has it. The coverage constraint is an inequality and every desired
  shift is rewarded, so in an optimal solution everyone who desires a slot works it: the
  assigned values of a slot sum to the number of listed employees who desire it, and that
  sum plus the shortage is the larger of the required headcount and the sum. It is the
  required headcount exactly when no more employees desire the slot than are required.
  The equality for every slot fails for one employee who desires a slot that needs nobody.
\<close>

theorem coverage_with_slack:
  assumes b: "build_problem employees desired_shifts required_shifts = Inr prob"
    and opt: "optimal prob varValue"
    and k: "(d, s) \<in> set slots"
  shows "(\<Sum>e\<leftarrow>employees. varValue (shift_variable e d s)) + varValue (shortage_variable d s)
           = max (of_int (required_count required_shifts d s))
                 (\<Sum>e\<leftarrow>employees. varValue (shift_variable e d s)) \<and>
         (\<Sum>e\<leftarrow>employees. varValue (shift_variable e d s))
           = real (desire_count employees desired_shifts d s) \<and>
         ((\<Sum>e\<leftarrow>employees. varValue (shift_variable e d s)) + varValue (shortage_variable d s)
            = of_int (required_count required_shifts d s)
          \<longleftrightarrow> real (desire_count employees desired_shifts d s)
                \<le> of_int (required_count required_shifts d s))"
  using optimal_assigned_sum [OF b opt k] optimal_unique(1) [OF b opt k]
  by (auto simp: best_values_shortage)

lemma build_one_desired_zero:
  "\<exists>prob. build_problem [''a''] one_desired (all_required 0) = Inr prob"
  by (simp add: build_problem_cases desired_complete_def one_desired_def)

theorem coverage_with_slack_witness:
  "(\<Sum>e\<leftarrow>[''a'']. best_values [''a''] one_desired (all_required 0) (shift_variable e 1 ''Morning''))
     + best_values [''a''] one_desired (all_required 0) (shortage_variable 1 ''Morning'')
   = max (of_int (required_count (all_required 0) 1 ''Morning''))
       (\<Sum>e\<leftarrow>[''a'']. best_values [''a''] one_desired (all_required 0)
                        (shift_variable e 1 ''Morning''))"
proof -
  from build_one_desired_zero obtain prob
    where b: "build_problem [''a''] one_desired (all_required 0) = Inr prob" ..
  from coverage_with_slack [OF b optimal_best [OF b] slots_nonempty]
  show ?thesis by blast
qed

theorem coverage_equality_counterexample:
  "case build_problem [''a''] one_desired (all_required 0) of
     Inl err \<Rightarrow> False
   | Inr prob \<Rightarrow>
       optimal prob (best_values [''a''] one_desired (all_required 0)) \<and>
       (\<Sum>e\<leftarrow>[''a'']. best_values [''a''] one_desired (all_required 0)
                        (shift_variable e 1 ''Morning''))
         + best_values [''a''] one_desired (all_required 0) (shortage_variable 1 ''Morning'')
         = 1 \<and>
       required_count (all_required 0) 1 ''Morning'' = 0"
proof -
  from build_one_desired_zero obtain prob
    where b: "build_problem [''a''] one_desired (all_required 0) = Inr prob" ..
  have "(\<Sum>e\<leftarrow>[''a'']. best_values [''a''] one_desired (all_required 0)
                        (shift_variable e 1 ''Morning''))
         + best_values [''a''] one_desired (all_required 0) (shortage_variable 1 ''Morning'')
         = 1"
    by (simp add: best_values_shift best_values_shortage desire_count_one
          required_count_all [OF slots_nonempty] desired_set_def one_desired_def)
  with optimal_best [OF b] required_count_all [OF slots_nonempty, of 0] show ?thesis
    by (simp add: b)
qed

section \<open>The assignment table\<close>

lemma shifts_items:
  "shifts employees =
     map (\<lambda>(e, d, s). ((e, d, s), shift_variable e d s))
       (dict_keys [(e, d, s). (d, s) \<leftarrow> slots, e \<leftarrow> employees])"
  by (simp add: shifts_def)

lemma set_shift_keys:
  "set (dict_keys [(e, d, s). (d, s) \<leftarrow> slots, e \<leftarrow> employees]) =
     {(e, d, s). e \<in> set employees \<and> (d, s) \<in> set slots}"
  by (auto simp: set_dict_keys)

lemma shifts_data_filter:
  "shifts_data val employees =
     map (\<lambda>(e, d, s). (e, slot_label d s, val (shift_variable e d s)))
       (filter (\<lambda>(e, d, s). val (shift_variable e d s) \<noteq> 0)
          (dict_keys [(e, d, s). (d, s) \<leftarrow> slots, e \<leftarrow> employees]))"
  by (simp add: shifts_data_def shifts_items filter_map comp_def case_prod_unfold)

lemma shifts_data_set:
  "set (shifts_data val employees) =
     {(e, slot_label d s, val (shift_variable e d s)) | e d s.
        e \<in> set employees \<and> (d, s) \<in> set slots \<and> val (shift_variable e d s) \<noteq> 0}"
  unfolding shifts_data_filter set_map set_filter set_shift_keys
  by (auto simp: image_iff) blast

lemma filter_distinct_eq:
  "distinct ks \<Longrightarrow> filter (\<lambda>k. k = a \<and> P k) ks = (if a \<in> set ks \<and> P a then [a] else [])"
  by (induction ks) auto

lemma recorded_shifts_data:
  assumes k: "(d, s) \<in> set slots"
  shows "recorded (shifts_data val employees) e (slot_label d s) =
     (if e \<in> set employees \<and> val (shift_variable e d s) \<noteq> 0
      then [val (shift_variable e d s)] else [])"
proof -
  let ?K = "dict_keys [(e, d, s). (d, s) \<leftarrow> slots, e \<leftarrow> employees]"
  let ?P = "\<lambda>(e, d, s). val (shift_variable e d s) \<noteq> 0"
  let ?f = "\<lambda>(e, d, s). (e, slot_label d s, val (shift_variable e d s))"
  have "filter (\<lambda>(e', l', x). e' = e \<and> l' = slot_label d s) (map ?f (filter ?P ?K)) =
        map ?f (filter (\<lambda>k. (case k of (e', d', s') \<Rightarrow> e' = e \<and> slot_label d' s' = slot_label d s)
                           \<and> ?P k) ?K)"
    by (simp add: filter_map comp_def case_prod_unfold conj_commute)
  also have "filter (\<lambda>k. (case k of (e', d', s') \<Rightarrow> e' = e \<and> slot_label d' s' = slot_label d s)
                           \<and> ?P k) ?K =
             filter (\<lambda>k. k = (e, d, s) \<and> ?P k) ?K"
  proof (rule filter_cong [OF refl])
    fix x assume "x \<in> set ?K"
    then obtain e' d' s' where x: "x = (e', d', s')" and in': "(d', s') \<in> set slots"
      unfolding set_shift_keys by auto
    have "slot_label d' s' = slot_label d s \<longleftrightarrow> d' = d \<and> s' = s"
      using slot_label_inj [OF in' k] by auto
    then show "((case x of (e', d', s') \<Rightarrow> e' = e \<and> slot_label d' s' = slot_label d s) \<and> ?P x)
             = (x = (e, d, s) \<and> ?P x)"
      unfolding x by auto
  qed
  also have "\<dots> = (if (e, d, s) \<in> set ?K \<and> ?P (e, d, s) then [(e, d, s)] else [])"
    by (rule filter_distinct_eq) (rule distinct_dict_keys)
  finally have "filter (\<lambda>(e', l', x). e' = e \<and> l' = slot_label d s) (shifts_data val employees) =
        map ?f (if (e, d, s) \<in> set ?K \<and> ?P (e, d, s) then [(e, d, s)] else [])"
    by (simp only: shifts_data_filter)
  then show ?thesis
    unfolding recorded_def using k by (simp add: set_shift_keys)
qed

lemma pivot_table_index:
  "index (pivot_table recs fv) = sort (remdups (map (\<lambda>(e, l, x). e) recs))"
  by (simp add: pivot_table_def Let_def)

lemma pivot_table_columns:
  "columns (pivot_table recs fv) = sort (remdups (map (\<lambda>(e, l, x). l) recs))"
  by (simp add: pivot_table_def Let_def)

lemma pivot_table_cells:
  "cells (pivot_table recs fv) =
     map (\<lambda>e. map (\<lambda>l. if recorded recs e l = [] then fv else mean (recorded recs e l))
                 (columns (pivot_table recs fv)))
       (index (pivot_table recs fv))"
  by (simp add: pivot_table_def Let_def)

lemma pivot_table_cell:
  assumes "i < length (index (pivot_table recs fv))" "j < length (columns (pivot_table recs fv))"
  shows "cells (pivot_table recs fv) ! i ! j =
     (if recorded recs (index (pivot_table recs fv) ! i) (columns (pivot_table recs fv) ! j) = []
      then fv
      else mean (recorded recs (index (pivot_table recs fv) ! i)
                   (columns (pivot_table recs fv) ! j)))"
  using assms by (simp add: pivot_table_cells)

lemma pivot_index_set:
  "set (index (pivot_table (shifts_data val employees) fv)) =
     {e \<in> set employees. \<exists>(d, s)\<in>set slots. val (shift_variable e d s) \<noteq> 0}"
  unfolding pivot_table_index set_sort set_remdups set_map shifts_data_set
  by (auto simp: image_iff) force

lemma pivot_columns_set:
  "set (columns (pivot_table (shifts_data val employees) fv)) =
     {slot_label d s | d s.
        (d, s) \<in> set slots \<and> (\<exists>e\<in>set employees. val (shift_variable e d s) \<noteq> 0)}"
  unfolding pivot_table_columns set_sort set_remdups set_map shifts_data_set
  by (auto simp: image_iff) force

lemma mean_single: "mean [x] = x"
  by (simp add: mean_def)

lemma pivot_cell_value:
  assumes i: "i < length (index (pivot_table (shifts_data val employees) 0))"
    and j: "j < length (columns (pivot_table (shifts_data val employees) 0))"
    and k: "(d, s) \<in> set slots"
    and l: "columns (pivot_table (shifts_data val employees) 0) ! j = slot_label d s"
  shows "cells (pivot_table (shifts_data val employees) 0) ! i ! j =
           val (shift_variable (index (pivot_table (shifts_data val employees) 0) ! i) d s)"
proof -
  have "index (pivot_table (shifts_data val employees) 0) ! i
          \<in> set (index (pivot_table (shifts_data val employees) 0))"
    using i by (rule nth_mem)
  then have "index (pivot_table (shifts_data val employees) 0) ! i \<in> set employees"
    unfolding pivot_index_set by simp
  then show ?thesis
    unfolding pivot_table_cell [OF i j] l recorded_shifts_data [OF k]
    by (simp add: mean_single)
qed

section \<open>Preference lock and binary values\<close>

lemma pivot_shape:
  "length (cells (pivot_table recs fv)) = length (index (pivot_table recs fv))"
  "row \<in> set (cells (pivot_table recs fv)) \<Longrightarrow>
     length row = length (columns (pivot_table recs fv))"
  by (auto simp: pivot_table_cells)

lemma pivot_sorted:
  "distinct (index (pivot_table recs fv))" "sorted (index (pivot_table recs fv))"
  "distinct (columns (pivot_table recs fv))" "sorted (columns (pivot_table recs fv))"
  by (simp_all add: pivot_table_index pivot_table_columns)

lemma pivot_column_slot:
  assumes "j < length (columns (pivot_table (shifts_data val employees) fv))"
  obtains d s where "(d, s) \<in> set slots"
    and "columns (pivot_table (shifts_data val employees) fv) ! j = slot_label d s"
proof -
  have "columns (pivot_table (shifts_data val employees) fv) ! j
          \<in> set (columns (pivot_table (shifts_data val employees) fv))"
    using assms by (rule nth_mem)
  then show ?thesis
    unfolding pivot_columns_set using that by blast
qed

lemma pivot_row_employee:
  assumes "i < length (index (pivot_table (shifts_data val employees) fv))"
  shows "index (pivot_table (shifts_data val employees) fv) ! i \<in> set employees"
proof -
  have "index (pivot_table (shifts_data val employees) fv) ! i
          \<in> set (index (pivot_table (shifts_data val employees) fv))"
    using assms by (rule nth_mem)
  then show ?thesis
    unfolding pivot_index_set by simp
qed

text \<open>
  Claim C2. For an employee of the list and a slot outside the employee's desired set, the
  shift variable is one of the problem's variables and the problem holds the constraint
  that fixes it to 0. So any feasible values give it 0, no record of the pair is made, and
  a cell of the returned table at that employee's row and that slot's column, if the table
  has both, is 0.
\<close>

theorem undesired_shift_locked:
  assumes b: "build_problem employees desired_shifts required_shifts = Inr prob"
    and e: "e \<in> set employees"
    and k: "(d, s) \<in> set slots"
    and nd: "(d, s) \<notin> desired_set desired_shifts e"
    and f: "feasible prob (solve prob)"
    and g: "generate_shifts solve employees desired_shifts required_shifts = Inr (pt, sdf)"
  shows "shift_variable e d s \<in> set (variables prob) \<and>
         lock_constraint e d s \<in> set (constraints prob) \<and>
         solve prob (shift_variable e d s) = 0 \<and>
         (\<forall>x. (e, slot_label d s, x) \<notin> set (shifts_data (solve prob) employees)) \<and>
         (\<forall>i<length (index pt). \<forall>j<length (columns pt).
            index pt ! i = e \<and> columns pt ! j = slot_label d s \<longrightarrow> cells pt ! i ! j = 0)"
proof -
  from b have vars: "variables prob = map snd shortages @ map snd (shifts employees)"
    and cons: "constraints prob =
        map (\<lambda>(d, s). coverage_constraint employees d s
                         (required_count required_shifts d s)) slots @
        [lock_constraint e d s. e \<leftarrow> employees, (d, s) \<leftarrow> slots,
           (d, s) \<notin> desired_set desired_shifts e]"
    by (auto simp: build_problem_cases split: if_splits)
  have v: "shift_variable e d s \<in> set (variables prob)"
    unfolding vars set_variables using e k by blast
  have c: "lock_constraint e d s \<in> set (constraints prob)"
    unfolding cons set_constraints using e k nd by blast
  have zero: "solve prob (shift_variable e d s) = 0"
    using f e k nd unfolding feasible_built [OF b] by blast
  have norec: "(e, slot_label d s, x) \<notin> set (shifts_data (solve prob) employees)" for x
  proof
    assume "(e, slot_label d s, x) \<in> set (shifts_data (solve prob) employees)"
    then obtain d' s' where k': "(d', s') \<in> set slots"
      and l: "slot_label d s = slot_label d' s'"
      and nz: "solve prob (shift_variable e d' s') \<noteq> 0"
      unfolding shifts_data_set by blast
    from slot_label_inj [OF k k' l] nz zero show False by simp
  qed
  from b g have pt: "pt = pivot_table (shifts_data (solve prob) employees) 0"
    by (simp add: generate_shifts_Inr)
  have cell: "cells pt ! i ! j = 0"
    if "i < length (index pt)" "j < length (columns pt)"
      "index pt ! i = e" "columns pt ! j = slot_label d s" for i j
    using pivot_cell_value [OF that(1,2) [unfolded pt] k that(4) [unfolded pt]] that(3) zero
    by (simp add: pt)
  from v c zero norec cell show ?thesis
    by blast
qed

lemma variable_shapes:
  assumes "build_problem employees desired_shifts required_shifts = Inr prob"
    and "v \<in> set (variables prob)"
  shows "(\<exists>d s. v = shortage_variable d s) \<or> (\<exists>e d s. v = shift_variable e d s)"
proof -
  from assms(1) have "variables prob = map snd shortages @ map snd (shifts employees)"
    by (auto simp: build_problem_cases split: if_splits)
  with assms(2) have "v \<in> set (map snd shortages @ map snd (shifts employees))"
    by simp
  then show ?thesis
    unfolding set_variables by blast
qed

lemma cat_shortage [simp]: "cat (shortage_variable d s) = Continuous"
  by (simp add: shortage_variable_def)

lemma cat_shift [simp]: "cat (shift_variable e d s) = Binary"
  by (simp add: shift_variable_def)

lemma variable_categories:
  assumes "build_problem employees desired_shifts required_shifts = Inr prob"
    and "v \<in> set (variables prob)"
  shows "(cat v = Binary \<longleftrightarrow> (\<exists>e d s. v = shift_variable e d s)) \<and>
         (cat v = Continuous \<longleftrightarrow> (\<exists>d s. v = shortage_variable d s))"
proof -
  from variable_shapes [OF assms]
  show ?thesis
  proof
    assume "\<exists>d s. v = shortage_variable d s"
    then obtain d s where v: "v = shortage_variable d s" by blast
    have "cat v = Continuous" by (simp add: v)
    moreover have "\<not> (\<exists>e d' s'. v = shift_variable e d' s')"
    proof
      assume "\<exists>e d' s'. v = shift_variable e d' s'"
      then obtain e d' s' where "v = shift_variable e d' s'" by blast
      then have "cat v = Binary" by simp
      with \<open>cat v = Continuous\<close> show False by simp
    qed
    moreover have "\<exists>d s. v = shortage_variable d s" using v by blast
    ultimately show ?thesis by simp
  next
    assume "\<exists>e d s. v = shift_variable e d s"
    then obtain e d s where v: "v = shift_variable e d s" by blast
    have "cat v = Binary" by (simp add: v)
    moreover have "\<not> (\<exists>d' s'. v = shortage_variable d' s')"
    proof
      assume "\<exists>d' s'. v = shortage_variable d' s'"
      then obtain d' s' where "v = shortage_variable d' s'" by blast
      then have "cat v = Continuous" by simp
      with \<open>cat v = Binary\<close> show False by simp
    qed
    moreover have "\<exists>e d s. v = shift_variable e d s" using v by blast
    ultimately show ?thesis by simp
  qed
qed

lemma feasible_binary:
  assumes "build_problem employees desired_shifts required_shifts = Inr prob"
    and "feasible prob val" and "e \<in> set employees" and "(d, s) \<in> set slots"
  shows "val (shift_variable e d s) = 0 \<or> val (shift_variable e d s) = 1"
proof -
  from assms(2) have "\<forall>e\<in>set employees. \<forall>(d, s)\<in>set slots.
        val (shift_variable e d s) = 0 \<or> val (shift_variable e d s) = 1"
    unfolding feasible_built [OF assms(1)] by (elim conjE)
  with assms(3,4) show ?thesis
    by fast
qed

lemma pivot_cells_binary:
  assumes b: "build_problem employees desired_shifts required_shifts = Inr prob"
    and f: "feasible prob val"
    and row: "row \<in> set (cells (pivot_table (shifts_data val employees) 0))"
    and x: "x \<in> set row"
  shows "x = 0 \<or> x = 1"
proof -
  let ?pt = "pivot_table (shifts_data val employees) 0"
  from row obtain i where i: "i < length (cells ?pt)" and r: "row = cells ?pt ! i"
    by (auto simp: in_set_conv_nth)
  from x obtain j where j: "j < length row" and xj: "x = row ! j"
    by (auto simp: in_set_conv_nth)
  from i have i': "i < length (index ?pt)"
    by (simp add: pivot_shape(1))
  from j pivot_shape(2) [OF row] have j': "j < length (columns ?pt)"
    by simp
  from pivot_column_slot [OF j'] obtain d s where k: "(d, s) \<in> set slots"
    and l: "columns ?pt ! j = slot_label d s"
    by blast
  have "x = val (shift_variable (index ?pt ! i) d s)"
    unfolding xj r by (rule pivot_cell_value [OF i' j' k l])
  moreover have "index ?pt ! i \<in> set employees"
    using i' by (rule pivot_row_employee)
  ultimately show ?thesis
    using feasible_binary [OF b f _ k] by simp
qed

text \<open>
  Claim C4. Every shift variable of the problem is declared \<open>Binary\<close> and every shortage
  variable \<open>Continuous\<close>, and the problem has no other variables. So when the solved
  values are feasible, every cell of the returned assignment table is 0 or 1.
\<close>

theorem assignment_values_binary:
  assumes b: "build_problem employees desired_shifts required_shifts = Inr prob"
    and f: "feasible prob (solve prob)"
    and g: "generate_shifts solve employees desired_shifts required_shifts = Inr (pt, sdf)"
  shows "(\<forall>row\<in>set (cells pt). \<forall>x\<in>set row. x = 0 \<or> x = 1) \<and>
         (\<forall>v\<in>set (variables prob).
            (cat v = Binary \<longleftrightarrow> (\<exists>e d s. v = shift_variable e d s)) \<and>
            (cat v = Continuous \<longleftrightarrow> (\<exists>d s. v = shortage_variable d s)))"
proof (intro conjI ballI)
  from b g have pt: "pt = pivot_table (shifts_data (solve prob) employees) 0"
    by (simp add: generate_shifts_Inr)
  fix row x assume "row \<in> set (cells pt)" "x \<in> set row"
  then show "x = 0 \<or> x = 1"
    unfolding pt by (rule pivot_cells_binary [OF b f])
next
  fix v assume "v \<in> set (variables prob)"
  with b show "cat v = Binary \<longleftrightarrow> (\<exists>e d s. v = shift_variable e d s)"
    using variable_categories by blast
next
  fix v assume "v \<in> set (variables prob)"
  with b show "cat v = Continuous \<longleftrightarrow> (\<exists>d s. v = shortage_variable d s)"
    using variable_categories by blast
qed

lemma shift_keys_single:
  "dict_keys [(e, d, s). (d, s) \<leftarrow> slots, e \<leftarrow> [a]] = map (\<lambda>(d, s). (a, d, s)) slots"
proof -
  have "[(e, d, s). (d, s) \<leftarrow> slots, e \<leftarrow> [a]] = map (\<lambda>(d, s). (a, d, s)) slots"
    by (simp add: map_filter_concat [where P = "\<lambda>x. True", simplified] case_prod_unfold)
  moreover have "distinct (map (\<lambda>(d, s). (a, d, s)) slots)"
    using distinct_slots by (auto simp: distinct_map inj_on_def)
  ultimately show ?thesis
    by (simp add: dict_keys_distinct)
qed

lemma desired_set_one:
  "(d, s) \<in> desired_set one_desired ''a'' \<longleftrightarrow> d = 1 \<and> s = ''Morning''"
  by (simp add: desired_set_def one_desired_def)

lemma shifts_data_one_desired:
  "shifts_data (best_values [''a''] one_desired required_shifts) [''a''] =
     [(''a'', ''1-Morning'', 1)]"
proof -
  have "shifts_data (best_values [''a''] one_desired required_shifts) [''a''] =
        map (\<lambda>(d, s). (''a'', slot_label d s,
               if (d, s) \<in> desired_set one_desired ''a'' then 1 else 0))
          (filter (\<lambda>(d, s). (d, s) \<in> desired_set one_desired ''a'') slots)"
    unfolding shifts_data_filter shift_keys_single
    by (simp add: filter_map comp_def case_prod_unfold best_values_shift)
  also have "filter (\<lambda>(d, s). (d, s) \<in> desired_set one_desired ''a'') slots = [(1, ''Morning'')]"
    by (simp add: slots_list desired_set_one)
  finally show ?thesis
    by (simp add: desired_set_one slot_label_def str_int_def digits.simps)
qed

lemma pivot_table_single:
  "pivot_table [(e, l, x)] fv = \<lparr>index = [e], columns = [l], cells = [[x]]\<rparr>"
  by (simp add: pivot_table_def recorded_def mean_def)

lemma generate_one_desired:
  "generate_shifts (optimal_solver [''a''] one_desired (all_required r))
      [''a''] one_desired (all_required r) =
   Inr (\<lparr>index = [''a''], columns = [''1-Morning''], cells = [[1]]\<rparr>,
        shortages_data (best_values [''a''] one_desired (all_required r)))"
proof -
  have "\<exists>prob. build_problem [''a''] one_desired (all_required r) = Inr prob"
    by (simp add: build_problem_cases desired_complete_def one_desired_def)
  then obtain prob where b: "build_problem [''a''] one_desired (all_required r) = Inr prob" ..
  show ?thesis
    unfolding generate_shifts_Inr [OF b] optimal_solver_def shifts_data_one_desired
      pivot_table_single ..
qed

theorem undesired_shift_locked_witness:
  "case build_problem [''a''] one_desired (all_required 1) of
     Inl err \<Rightarrow> False
   | Inr prob \<Rightarrow>
       shift_variable ''a'' 1 ''Evening'' \<in> set (variables prob) \<and>
       lock_constraint ''a'' 1 ''Evening'' \<in> set (constraints prob) \<and>
       optimal_solver [''a''] one_desired (all_required 1) prob
         (shift_variable ''a'' 1 ''Evening'') = 0"
proof -
  let ?solve = "optimal_solver [''a''] one_desired (all_required 1)"
  obtain prob where b: "build_problem [''a''] one_desired (all_required 1) = Inr prob"
    using build_one_desired by blast
  have e: "''a'' \<in> set [''a'']" by simp
  have k: "(1, ''Evening'') \<in> set slots"
    by (simp add: slots_list)
  have nd: "(1, ''Evening'') \<notin> desired_set one_desired ''a''"
    by (simp add: desired_set_one)
  have f: "feasible prob (?solve prob)"
    unfolding optimal_solver_def using b by (rule feasible_best)
  note g = generate_one_desired [of 1]
  from undesired_shift_locked [OF b e k nd f g] show ?thesis
    unfolding b by simp
qed

theorem assignment_values_binary_witness:
  "case generate_shifts (optimal_solver [''a''] one_desired (all_required 1))
          [''a''] one_desired (all_required 1) of
     Inl err \<Rightarrow> False
   | Inr (pt, sdf) \<Rightarrow> cells pt = [[1]] \<and> (\<forall>row\<in>set (cells pt). \<forall>x\<in>set row. x = 0 \<or> x = 1)"
proof -
  let ?solve = "optimal_solver [''a''] one_desired (all_required 1)"
  obtain prob where b: "build_problem [''a''] one_desired (all_required 1) = Inr prob"
    using build_one_desired by blast
  have f: "feasible prob (?solve prob)"
    unfolding optimal_solver_def using b by (rule feasible_best)
  note g = generate_one_desired [of 1]
  from assignment_values_binary [OF b f g] show ?thesis
    unfolding g by simp
qed

section \<open>Rows of the assignment table\<close>

lemma distinct_single_set:
  assumes "distinct xs" "set xs = {a}"
  shows "xs = [a]"
proof (cases xs)
  case Nil
  with assms show ?thesis by simp
next
  case (Cons x ys)
  with assms have "x = a" by auto
  moreover have "ys = []"
  proof (cases ys)
    case Nil
    then show ?thesis .
  next
    case (Cons y zs)
    with \<open>xs = x # ys\<close> assms have "y = a" "y \<noteq> x" by auto
    with \<open>x = a\<close> show ?thesis by simp
  qed
  ultimately show ?thesis using Cons by simp
qed

text \<open>
  Claim C5, as the code has it. The table is pivoted from the records of the non-zero
  values only, so its rows are the listed employees that have at least one non-zero
  assignment, each once; an employee without one has no row. Every row has one cell per
  column, and a cell is the solved value of its (employee, slot) pair, hence 0 where
  that pair has no non-zero assignment. With two employees of whom one desires nothing,
  the table has a single row.
\<close>

theorem assignment_table_rows:
  assumes b: "build_problem employees desired_shifts required_shifts = Inr prob"
    and g: "generate_shifts solve employees desired_shifts required_shifts = Inr (pt, sdf)"
  shows "set (index pt) =
           {e \<in> set employees. \<exists>(d, s)\<in>set slots. solve prob (shift_variable e d s) \<noteq> 0} \<and>
         distinct (index pt) \<and>
         length (cells pt) = length (index pt) \<and>
         (\<forall>row\<in>set (cells pt). length row = length (columns pt)) \<and>
         (\<forall>i<length (index pt). \<forall>j<length (columns pt). \<forall>(d, s)\<in>set slots.
            columns pt ! j = slot_label d s \<longrightarrow>
            cells pt ! i ! j = solve prob (shift_variable (index pt ! i) d s))"
proof -
  from b g have pt: "pt = pivot_table (shifts_data (solve prob) employees) 0"
    by (simp add: generate_shifts_Inr)
  have cell: "cells pt ! i ! j = solve prob (shift_variable (index pt ! i) d s)"
    if "i < length (index pt)" "j < length (columns pt)" "(d, s) \<in> set slots"
      "columns pt ! j = slot_label d s" for i j d s
    using that unfolding pt by (rule pivot_cell_value)
  have rows: "\<forall>row\<in>set (cells pt). length row = length (columns pt)"
    unfolding pt using pivot_shape(2) by blast
  from cell have cells: "\<forall>i<length (index pt). \<forall>j<length (columns pt). \<forall>(d, s)\<in>set slots.
            columns pt ! j = slot_label d s \<longrightarrow>
            cells pt ! i ! j = solve prob (shift_variable (index pt ! i) d s)"
    by blast
  have "set (index pt) =
           {e \<in> set employees. \<exists>(d, s)\<in>set slots. solve prob (shift_variable e d s) \<noteq> 0}"
    unfolding pt by (rule pivot_index_set)
  moreover have "distinct (index pt)"
    unfolding pt by (rule pivot_sorted(1))
  moreover have "length (cells pt) = length (index pt)"
    unfolding pt by (rule pivot_shape(1))
  ultimately show ?thesis
    using rows cells by (intro conjI)
qed

lemma build_two_desired:
  "\<exists>prob. build_problem [''a'', ''b''] two_desired (all_required 1) = Inr prob"
  by (simp add: build_problem_cases desired_complete_def two_desired_def)

lemma desired_set_two:
  "(d, s) \<in> desired_set two_desired e \<longleftrightarrow> e = ''a'' \<and> d = 1 \<and> s = ''Morning''"
  by (simp add: desired_set_def two_desired_def)

lemma two_desired_rows:
  "{e \<in> set [''a'', ''b'']. \<exists>(d, s)\<in>set slots.
      best_values [''a'', ''b''] two_desired (all_required 1) (shift_variable e d s) \<noteq> 0}
   = {''a''}"
  using slots_nonempty by (auto simp: best_values_shift desired_set_two)

theorem assignment_table_rows_witness:
  "case generate_shifts (optimal_solver [''a'', ''b''] two_desired (all_required 1))
          [''a'', ''b''] two_desired (all_required 1) of
     Inl err \<Rightarrow> False
   | Inr (pt, sdf) \<Rightarrow> set (index pt) = {''a''} \<and> distinct (index pt)"
proof -
  let ?solve = "optimal_solver [''a'', ''b''] two_desired (all_required 1)"
  from build_two_desired obtain prob
    where b: "build_problem [''a'', ''b''] two_desired (all_required 1) = Inr prob" ..
  note g = generate_shifts_Inr [OF b, of ?solve]
  let ?pt = "pivot_table (shifts_data (?solve prob) [''a'', ''b'']) 0"
  from assignment_table_rows [OF b g]
  have "set (index ?pt) =
          {e \<in> set [''a'', ''b'']. \<exists>(d, s)\<in>set slots. ?solve prob (shift_variable e d s) \<noteq> 0}"
    and d: "distinct (index ?pt)"
    by blast+
  then have "set (index ?pt) = {''a''}"
    by (simp only: optimal_solver_def two_desired_rows)
  with d show ?thesis
    unfolding g by simp
qed

theorem one_row_per_employee_counterexample:
  "case generate_shifts (optimal_solver [''a'', ''b''] two_desired (all_required 1))
          [''a'', ''b''] two_desired (all_required 1) of
     Inl err \<Rightarrow> False
   | Inr (pt, sdf) \<Rightarrow>
       index pt = [''a''] \<and> ''b'' \<in> set [''a'', ''b''] \<and> ''b'' \<notin> set (index pt)"
proof -
  let ?solve = "optimal_solver [''a'', ''b''] two_desired (all_required 1)"
  from build_two_desired obtain prob
    where b: "build_problem [''a'', ''b''] two_desired (all_required 1) = Inr prob" ..
  note g = generate_shifts_Inr [OF b, of ?solve]
  let ?pt = "pivot_table (shifts_data (?solve prob) [''a'', ''b'']) 0"
  have "set (index ?pt) = {''a''}"
    unfolding pivot_index_set by (simp only: optimal_solver_def two_desired_rows)
  with pivot_sorted(1) [of "shifts_data (?solve prob) [''a'', ''b'']" 0]
  have "index ?pt = [''a'']"
    by (rule distinct_single_set)
  then show ?thesis
    unfolding g by simp
qed

section \<open>Scenario: one employee who desires every morning\<close>

lemma slots_of_type:
  "filter (\<lambda>(d, s). s = ''Morning'')
     (concat (map (\<lambda>day. [(day, ''Morning''), (day, ''Evening'')]) ds)) =
   map (\<lambda>day. (day, ''Morning'')) ds"
  "filter (\<lambda>(d, s). s = ''Evening'')
     (concat (map (\<lambda>day. [(day, ''Morning''), (day, ''Evening'')]) ds)) =
   map (\<lambda>day. (day, ''Evening'')) ds"
  by (induction ds) simp_all

lemma slots_by_day:
  "slots = concat (map (\<lambda>day. [(day, ''Morning''), (day, ''Evening'')]) days)"
  by (simp add: slots_def shift_types_def)

lemma morning_slots: "filter (\<lambda>(d, s). s = ''Morning'') slots = map (\<lambda>day. (day, ''Morning'')) days"
  unfolding slots_by_day by (rule slots_of_type(1))

lemma evening_slots: "filter (\<lambda>(d, s). s = ''Evening'') slots = map (\<lambda>day. (day, ''Evening'')) days"
  unfolding slots_by_day by (rule slots_of_type(2))

lemma day_slots:
  "day \<in> set days \<Longrightarrow> (day, ''Morning'') \<in> set slots"
  "day \<in> set days \<Longrightarrow> (day, ''Evening'') \<in> set slots"
  by (simp_all add: set_slots shift_types_def)

lemma slot_cases:
  "(d, s) \<in> set slots \<Longrightarrow> d \<in> set days \<and> (s = ''Morning'' \<or> s = ''Evening'')"
  by (auto simp: set_slots shift_types_def)

lemma length_days: "length days = 30"
  by (simp add: days_list)

lemma morning_records:
  assumes v: "\<And>d s. (d, s) \<in> set slots \<Longrightarrow>
                val (shift_variable e d s) = (if s = ''Morning'' then 1 else 0)"
  shows "shifts_data val [e] = map (\<lambda>day. (e, slot_label day ''Morning'', 1)) days"
proof -
  have "shifts_data val [e] =
        map (\<lambda>(d, s). (e, slot_label d s, val (shift_variable e d s)))
          (filter (\<lambda>(d, s). val (shift_variable e d s) \<noteq> 0) slots)"
    unfolding shifts_data_filter shift_keys_single
    by (simp add: filter_map comp_def case_prod_unfold)
  also have "filter (\<lambda>(d, s). val (shift_variable e d s) \<noteq> 0) slots =
             filter (\<lambda>(d, s). s = ''Morning'') slots"
    by (rule filter_cong [OF refl]) (auto simp: v split: if_splits)
  also have "map (\<lambda>(d, s). (e, slot_label d s, val (shift_variable e d s)))
               (filter (\<lambda>(d, s). s = ''Morning'') slots) =
             map (\<lambda>day. (e, slot_label day ''Morning'', val (shift_variable e day ''Morning''))) days"
    unfolding morning_slots by (simp add: comp_def)
  also have "\<dots> = map (\<lambda>day. (e, slot_label day ''Morning'', 1)) days"
    by (rule map_cong [OF refl]) (simp add: v day_slots)
  finally show ?thesis .
qed

lemma evening_rows:
  assumes v: "\<And>d s. (d, s) \<in> set slots \<Longrightarrow>
                val (shortage_variable d s) = (if s = ''Evening'' then 1 else 0)"
  shows "shortages_data val = map (\<lambda>day. (slot_label day ''Evening'', 1)) days"
proof -
  have "filter (\<lambda>(d, s). val (shortage_variable d s) \<noteq> 0) slots =
             filter (\<lambda>(d, s). s = ''Evening'') slots"
    by (rule filter_cong [OF refl]) (auto simp: v split: if_splits)
  then have "shortages_data val =
      map (\<lambda>day. (slot_label day ''Evening'', val (shortage_variable day ''Evening''))) days"
    unfolding shortages_data_filter evening_slots by (simp add: comp_def)
  also have "\<dots> = map (\<lambda>day. (slot_label day ''Evening'', 1)) days"
    by (rule map_cong [OF refl]) (simp add: v day_slots)
  finally show ?thesis .
qed

lemma distinct_morning_labels: "distinct (map (\<lambda>day. slot_label day ''Morning'') days)"
proof -
  have "map (\<lambda>day. slot_label day ''Morning'') days =
        map (\<lambda>(d, s). slot_label d s) (filter (\<lambda>(d, s). s = ''Morning'') slots)"
    unfolding morning_slots by (simp add: comp_def)
  moreover have "distinct (map (\<lambda>(d, s). slot_label d s) (filter (\<lambda>(d, s). s = ''Morning'') slots))"
    using distinct_labels by (rule distinct_map_filter)
  ultimately show ?thesis by simp
qed

lemma morning_pivot:
  assumes v: "\<And>d s. (d, s) \<in> set slots \<Longrightarrow>
                val (shift_variable e d s) = (if s = ''Morning'' then 1 else 0)"
  shows "pivot_table (shifts_data val [e]) 0 =
     \<lparr>index = [e],
      columns = sort (map (\<lambda>day. slot_label day ''Morning'') days),
      cells = [replicate 30 1]\<rparr>"
proof -
  let ?pt = "pivot_table (shifts_data val [e]) 0"
  have "val (shift_variable e 1 ''Morning'') \<noteq> 0"
    by (simp add: v [OF slots_nonempty])
  with slots_nonempty have "\<exists>(d, s)\<in>set slots. val (shift_variable e d s) \<noteq> 0"
    by blast
  then have "set (index ?pt) = {e}"
    unfolding pivot_index_set by auto
  with pivot_sorted(1) have idx: "index ?pt = [e]"
    by (rule distinct_single_set)
  have recs: "shifts_data val [e] = map (\<lambda>day. (e, slot_label day ''Morning'', 1)) days"
    by (rule morning_records) (rule v)
  have "map (\<lambda>(e, l, x). l) (shifts_data val [e]) = map (\<lambda>day. slot_label day ''Morning'') days"
    unfolding recs by (simp add: comp_def)
  then have cols: "columns ?pt = sort (map (\<lambda>day. slot_label day ''Morning'') days)"
    unfolding pivot_table_columns
    by (simp only: distinct_remdups_id [OF distinct_morning_labels])
  have one: "(if recorded (shifts_data val [e]) e l = [] then 0
              else mean (recorded (shifts_data val [e]) e l)) = 1"
    if "l \<in> set (columns ?pt)" for l
  proof -
    from that obtain day where day: "day \<in> set days" and l: "l = slot_label day ''Morning''"
      unfolding cols by auto
    show ?thesis
      unfolding l recorded_shifts_data [OF day_slots(1) [OF day]]
      by (simp add: v day_slots(1) [OF day] mean_single)
  qed
  have "map (\<lambda>l. if recorded (shifts_data val [e]) e l = [] then 0
              else mean (recorded (shifts_data val [e]) e l)) (columns ?pt) =
        map (\<lambda>l. 1) (columns ?pt)"
    by (rule map_cong [OF refl]) (rule one)
  also have "\<dots> = replicate 30 1"
    by (simp add: map_replicate_const cols length_days)
  finally have "cells ?pt = [replicate 30 1]"
    unfolding pivot_table_cells [of "shifts_data val [e]" 0] idx by simp
  with idx cols show ?thesis
    by (cases ?pt) simp
qed

lemma all_mornings_iff:
  "(d, s) \<in> set slots \<Longrightarrow> (d, s) \<in> all_mornings \<longleftrightarrow> s = ''Morning''"
  by (auto simp: all_mornings_def set_slots)

text \<open>
  Claim C7. One employee whose desired set is the 30 morning slots, every day requiring one
  person in the morning and one in the evening, a solver that meets the contract: the
  function returns; the employee works every morning, every evening is one person short
  and no morning is. The assignment table is the single row of the employee with the 30
  morning columns, all 1, and the shortage table has the 30 evening rows, all 1.
\<close>

theorem scenario_all_mornings:
  assumes D: "desired_shifts e = Some all_mornings"
    and R: "\<forall>day\<in>set days. \<exists>m. required_shifts day = Some m \<and>
              m ''Morning'' = Some 1 \<and> m ''Evening'' = Some 1"
    and contract: "\<And>prob. build_problem [e] desired_shifts required_shifts = Inr prob
                     \<Longrightarrow> optimal prob (solve prob)"
  shows "\<exists>prob.
           build_problem [e] desired_shifts required_shifts = Inr prob \<and>
           (\<forall>day\<in>set days.
              solve prob (shift_variable e day ''Morning'') = 1 \<and>
              solve prob (shortage_variable day ''Evening'') = 1 \<and>
              solve prob (shortage_variable day ''Morning'') = 0) \<and>
           generate_shifts solve [e] desired_shifts required_shifts =
             Inr (\<lparr>index = [e],
                   columns = sort (map (\<lambda>day. slot_label day ''Morning'') days),
                   cells = [replicate 30 1]\<rparr>,
                  map (\<lambda>day. (slot_label day ''Evening'', 1)) days)"
proof -
  have dc: "desired_complete [e] desired_shifts"
    by (simp add: desired_complete_def D)
  have rc: "required_complete required_shifts"
    unfolding required_complete_iff using R by (fastforce simp: shift_types_def)
  from dc rc obtain prob
    where b: "build_problem [e] desired_shifts required_shifts = Inr prob"
    by (simp add: build_problem_cases)
  have opt: "optimal prob (solve prob)"
    using b by (rule contract)
  have ds: "desired_set desired_shifts e = all_mornings"
    by (simp add: desired_set_def D)
  have req: "required_count required_shifts d s = 1" if "(d, s) \<in> set slots" for d s
    using slot_cases [OF that] R by (auto simp: required_count_def)
  have cnt: "desire_count [e] desired_shifts d s = (if s = ''Morning'' then 1 else 0)"
    if "(d, s) \<in> set slots" for d s
    by (simp add: desire_count_def ds all_mornings_iff [OF that])
  have shift: "solve prob (shift_variable e d s) = (if s = ''Morning'' then 1 else 0)"
    if "(d, s) \<in> set slots" for d s
    using optimal_unique(2) [OF b opt that, of e]
    by (simp add: best_values_shift ds all_mornings_iff [OF that])
  have short: "solve prob (shortage_variable d s) = (if s = ''Evening'' then 1 else 0)"
    if "(d, s) \<in> set slots" for d s
    using optimal_unique(1) [OF b opt that] slot_cases [OF that]
    by (auto simp: best_values_shortage req [OF that] cnt [OF that])
  have vals: "\<forall>day\<in>set days.
              solve prob (shift_variable e day ''Morning'') = 1 \<and>
              solve prob (shortage_variable day ''Evening'') = 1 \<and>
              solve prob (shortage_variable day ''Morning'') = 0"
    by (simp add: shift short day_slots)
  have "generate_shifts solve [e] desired_shifts required_shifts =
             Inr (\<lparr>index = [e],
                   columns = sort (map (\<lambda>day. slot_label day ''Morning'') days),
                   cells = [replicate 30 1]\<rparr>,
                  map (\<lambda>day. (slot_label day ''Evening'', 1)) days)"
    unfolding generate_shifts_Inr [OF b]
    by (simp only: morning_pivot [of "solve prob" e, OF shift]
          evening_rows [of "solve prob", OF short])
  with b vals show ?thesis
    by blast
qed

theorem scenario_all_mornings_witness:
  "generate_shifts (optimal_solver [''a''] mornings_desired (all_required 1))
      [''a''] mornings_desired (all_required 1) =
   Inr (\<lparr>index = [''a''],
         columns =
           [''1-Morning'', ''10-Morning'', ''11-Morning'', ''12-Morning'', ''13-Morning'',
            ''14-Morning'', ''15-Morning'', ''16-Morning'', ''17-Morning'', ''18-Morning'',
            ''19-Morning'', ''2-Morning'', ''20-Morning'', ''21-Morning'', ''22-Morning'',
            ''23-Morning'', ''24-Morning'', ''25-Morning'', ''26-Morning'', ''27-Morning'',
            ''28-Morning'', ''29-Morning'', ''3-Morning'', ''30-Morning'', ''4-Morning'',
            ''5-Morning'', ''6-Morning'', ''7-Morning'', ''8-Morning'', ''9-Morning''],
         cells = [replicate 30 1]\<rparr>,
        map (\<lambda>day. (slot_label day ''Evening'', 1)) days)"
proof -
  have D: "mornings_desired ''a'' = Some all_mornings"
    by (simp add: mornings_desired_def)
  have R: "\<forall>day\<in>set days. \<exists>m. all_required 1 day = Some m \<and>
              m ''Morning'' = Some 1 \<and> m ''Evening'' = Some 1"
    by (simp add: all_required_def shift_types_def)
  have contract: "optimal prob (optimal_solver [''a''] mornings_desired (all_required 1) prob)"
    if "build_problem [''a''] mornings_desired (all_required 1) = Inr prob" for prob
    unfolding optimal_solver_def using that by (rule optimal_best)
  have cols: "sort (map (\<lambda>day. slot_label day ''Morning'') days) =
           [''1-Morning'', ''10-Morning'', ''11-Morning'', ''12-Morning'', ''13-Morning'',
            ''14-Morning'', ''15-Morning'', ''16-Morning'', ''17-Morning'', ''18-Morning'',
            ''19-Morning'', ''2-Morning'', ''20-Morning'', ''21-Morning'', ''22-Morning'',
            ''23-Morning'', ''24-Morning'', ''25-Morning'', ''26-Morning'', ''27-Morning'',
            ''28-Morning'', ''29-Morning'', ''3-Morning'', ''30-Morning'', ''4-Morning'',
            ''5-Morning'', ''6-Morning'', ''7-Morning'', ''8-Morning'', ''9-Morning'']"
    by (simp add: days_list slot_label_def str_int_def digits.simps)
  from scenario_all_mornings
    [where desired_shifts = mornings_desired and e = "''a''"
       and required_shifts = "all_required 1"
       and solve = "optimal_solver [''a''] mornings_desired (all_required 1)",
     OF D R contract]
  show ?thesis
    unfolding cols by blast
qed

end
